theory Spec2Isabelle
  imports Main "HOL-Library.Char_ord" "HOL-Library.List_Lexorder"
begin

section \<open>Data model\<close>

text \<open>
  Go's \<open>error\<close> values.  The sources build two errors themselves with
  \<open>errors.New\<close>; every other error comes out of the standard library or out
  of a collaborator and is handed on unchanged.  \<open>PathError op path msg\<close> is
  the \<open>*fs.PathError\<close> that \<open>os.Open\<close> and \<open>os.Stat\<close> return.
\<close>

datatype error =
    ErrorsNew string
  | PathError string string string
  | HostError string

text \<open>
  The partition types are declared outside the four source files; the
  records hold the fields that the sources read.
\<close>

record Partition =
  Device :: string
  MountPoint :: string
  Uuid :: string

record ABRootPartition =
  IdentifiedAs :: string
  Partition :: Partition

record Chroot =
  root :: string
  rootUuid :: string
  rootDevice :: string

text \<open>
  \<open>QueuedFunction.Values\<close> is a \<open>[]interface{}\<close>: the drain asserts the
  dynamic type of its first element.  \<open>VOther\<close> stands for a value of any
  other dynamic type.
\<close>

datatype interface =
    VPartition ABRootPartition
  | VChroot Chroot
  | VOther string

record QueuedFunction =
  Name :: string
  Values :: "interface list"

text \<open>
  The image descriptor, the image that podman pulled (\<open>ImageDigest\<close> is its
  field \<open>Digest\<close>), the container file with the four arguments of
  \<open>podman.NewContainerFile\<close> (the two Go maps as association lists), and
  the three fields of \<open>settings.Cnf\<close> that \<open>Upgrade\<close> reads.  These types
  too are declared outside the source files.
\<close>

record ABImage =
  Digest :: string
  Image :: string

record PodmanImage =
  ImageDigest :: string

record ContainerFile =
  BaseImage :: string
  Labels :: "(string \<times> string) list"
  Args :: "(string \<times> string) list"
  Content :: string

record Config =
  CnfRegistry :: string
  CnfName :: string
  CnfTag :: string

text \<open>
  Of the four fields of \<open>ABSystem\<close> only \<open>CurImage\<close> holds data; \<open>Checks\<close>,
  \<open>RootM\<close> and \<open>Registry\<close> are handles on collaborators, whose answers are
  the host's below.
\<close>

record ABSystem =
  CurImage :: ABImage

text \<open>A function either returns or panics (a failed type assertion, an index out of range).\<close>

datatype 'a go = Return 'a | Panic

section \<open>The host\<close>

text \<open>
  Every operation that acts on the machine is a \<open>call\<close>, named after the Go
  function behind it: \<open>Partition.Mount\<close> and \<open>Partition.Unmount\<close>,
  \<open>podman.Pull\<close> and \<open>podman.GenerateRootfs\<close>, \<open>ABImage.WriteTo\<close>,
  \<open>os.Open\<close>, \<open>unix.Renameat2\<close> (two descriptors, two paths, the flags),
  \<open>os.MkdirAll\<close>, \<open>ioutil.WriteFile\<close> and \<open>os.Mkdir\<close> (with the file
  mode), \<open>exec.Command(name, args...).Run()\<close>, and \<open>MergeDiff\<close>.  The
  program's \<open>world\<close> is the process-global cleanup \<open>queue\<close> together
  with the \<open>trace\<close> of the calls issued so far, oldest first.  What
  \<open>PrintVerbose\<close> and \<open>fmt.Println\<close> print is left out.
\<close>

datatype call =
    PartitionMount Partition string
  | PartitionUnmount Partition
  | PodmanPull string
  | PodmanGenerateRootfs string ContainerFile string string
  | ABImageWriteTo ABImage string string
  | OsOpen string
  | Renameat2 nat string nat string nat
  | OsMkdirAll string nat
  | WriteFile string string nat
  | OsMkdir string nat
  | ExecRun string "string list"
  | MergeDiff string string

record world =
  queue :: "QueuedFunction list"
  trace :: "call list"

text \<open>
  The host decides how each call ends (\<open>result\<close>: \<open>None\<close> for a nil error)
  and answers the program's queries: the digest that the registry holds, the
  partitions that \<open>RootM.GetFuture\<close> and \<open>RootM.GetBoot\<close> find, the image
  that a pull brings, the package manager's final command, which paths
  exist, the descriptor of an opened file, what \<open>filepath.Glob\<close> matches,
  the next \<open>uuid.New().String()\<close>, and the configuration.  All of it may
  depend on everything done to the machine so far, so each answer takes the
  trace as its first argument.
\<close>

record host =
  result :: "call list \<Rightarrow> call \<Rightarrow> error option"
  registry_digest :: "call list \<Rightarrow> string"
  GetFuture :: "call list \<Rightarrow> error + ABRootPartition"
  GetBoot :: "call list \<Rightarrow> error + Partition"
  pulled :: "call list \<Rightarrow> string \<Rightarrow> PodmanImage"
  GetFinalCmd :: "call list \<Rightarrow> string"
  path_exists :: "call list \<Rightarrow> string \<Rightarrow> bool"
  fd_of :: "call list \<Rightarrow> string \<Rightarrow> nat"
  Glob :: "call list \<Rightarrow> string \<Rightarrow> error + string list"
  uuid_New :: "call list \<Rightarrow> string"
  Cnf :: Config

definition perform :: "host \<Rightarrow> call \<Rightarrow> world \<Rightarrow> error option \<times> world" where
  "perform h c w = (result h (trace w) c, w\<lparr>trace := trace w @ [c]\<rparr>)"

section \<open>Chroot sessions\<close>

definition ReservedMounts :: "string list" where
  "ReservedMounts = [''/dev'', ''/dev/pts'', ''/proc'', ''/run'', ''/sys'']"

text \<open>\<open>exec.Command("umount", c.root+mount).Run()\<close>\<close>

definition umount :: "Chroot \<Rightarrow> string \<Rightarrow> call" where
  "umount c mount = ExecRun ''umount'' [root c @ mount]"

text \<open>
  The loop that the sources write again and again:
  \<open>for _, x := range xs { err := f(x); if err != nil { return err } }\<close>.
\<close>

fun for_range :: "('a \<Rightarrow> world \<Rightarrow> error option \<times> world) \<Rightarrow> 'a list \<Rightarrow> world \<Rightarrow> error option \<times> world" where
  "for_range f [] w = (None, w)"
| "for_range f (x # xs) w =
     (case f x w of
        (Some err, w') \<Rightarrow> (Some err, w')
      | (None, w') \<Rightarrow> for_range f xs w')"

definition Close :: "host \<Rightarrow> Chroot \<Rightarrow> world \<Rightarrow> error option \<times> world" where
  "Close h c w = for_range (\<lambda>mount. perform h (umount c mount)) ReservedMounts w"

section \<open>The cleanup queue\<close>

definition ResetQueue :: "world \<Rightarrow> world" where
  "ResetQueue w = w\<lparr>queue := []\<rparr>"

definition AddToCleanUpQueue :: "string \<Rightarrow> interface list \<Rightarrow> world \<Rightarrow> world" where
  "AddToCleanUpQueue name values w =
     w\<lparr>queue := queue w @ [\<lparr>Name = name, Values = values\<rparr>]\<rparr>"

text \<open>
  One iteration of the loop of \<open>RunCleanUpQueue\<close>: the \<open>switch f.Name\<close>.
  \<open>Return None\<close> means that the iteration fell through to the next one;
  a name that is neither case is skipped.  \<open>f.Values[0].(T)\<close> panics when
  the list is empty or its head has another dynamic type.
\<close>

definition RunCleanUpQueue_case :: "host \<Rightarrow> QueuedFunction \<Rightarrow> world \<Rightarrow> error option go \<times> world" where
  "RunCleanUpQueue_case h f w =
     (if Name f = ''umountFuture'' then
        (case Values f of
           VPartition futurePart # _ \<Rightarrow>
             (case perform h (PartitionUnmount (Partition futurePart)) w of
                (err, w') \<Rightarrow> (Return err, w'))
         | _ \<Rightarrow> (Panic, w))
      else if Name f = ''closeChroot'' then
        (case Values f of
           VChroot chroot # _ \<Rightarrow>
             (case Close h chroot w of (err, w') \<Rightarrow> (Return err, w'))
         | _ \<Rightarrow> (Panic, w))
      else (Return None, w))"

fun RunCleanUpQueue_loop :: "host \<Rightarrow> QueuedFunction list \<Rightarrow> world \<Rightarrow> error option go \<times> world" where
  "RunCleanUpQueue_loop h [] w = (Return None, w)"
| "RunCleanUpQueue_loop h (f # fs) w =
     (case RunCleanUpQueue_case h f w of
        (Return None, w') \<Rightarrow> RunCleanUpQueue_loop h fs w'
      | (r, w') \<Rightarrow> (r, w'))"

definition RunCleanUpQueue :: "host \<Rightarrow> world \<Rightarrow> error option go \<times> world" where
  "RunCleanUpQueue h w =
     (case RunCleanUpQueue_loop h (queue w) w of
        (Return None, w') \<Rightarrow> (Return None, ResetQueue w')
      | (r, w') \<Rightarrow> (r, w'))"


section \<open>Library functions\<close>

text \<open>
  \<open>strings.Join\<close>, \<open>strings.ReplaceAll(s, "//", "/")\<close>, \<open>filepath.Base\<close>,
  \<open>filepath.Clean\<close> and \<open>filepath.Join\<close> of Go's standard library, on
  Unix paths, and \<open>fmt.Sprintf\<close> for formats whose only verb is \<open>%s\<close>.
\<close>

fun strings_Join :: "string list \<Rightarrow> string \<Rightarrow> string" where
  "strings_Join [] sep = []"
| "strings_Join [x] sep = x"
| "strings_Join (x # y # ys) sep = x @ sep @ strings_Join (y # ys) sep"

fun ReplaceAll_slashes :: "string \<Rightarrow> string" where
  "ReplaceAll_slashes (x # y # s) =
     (if x = CHR ''/'' \<and> y = CHR ''/'' then CHR ''/'' # ReplaceAll_slashes s
      else x # ReplaceAll_slashes (y # s))"
| "ReplaceAll_slashes s = s"

definition Base :: "string \<Rightarrow> string" where
  "Base path =
     (if path = [] then ''.''
      else
        let stripped = rev (dropWhile (\<lambda>c. c = CHR ''/'') (rev path));
            element = rev (takeWhile (\<lambda>c. c \<noteq> CHR ''/'') (rev stripped))
        in if element = [] then ''/'' else element)"

fun split_slash :: "string \<Rightarrow> string list" where
  "split_slash [] = [[]]"
| "split_slash (c # cs) =
     (if c = CHR ''/'' then [] # split_slash cs
      else (case split_slash cs of
              [] \<Rightarrow> [[c]]
            | x # xs \<Rightarrow> (c # x) # xs))"

fun clean_elements :: "bool \<Rightarrow> string list \<Rightarrow> string list \<Rightarrow> string list" where
  "clean_elements rooted kept [] = rev kept"
| "clean_elements rooted kept (e # es) =
     (if e = [] \<or> e = ''.'' then clean_elements rooted kept es
      else if e = ''..'' then
        (case kept of
           [] \<Rightarrow> if rooted then clean_elements rooted [] es
                 else clean_elements rooted [''..''] es
         | k # ks \<Rightarrow> if k = ''..'' then clean_elements rooted (e # kept) es
                     else clean_elements rooted ks es)
      else clean_elements rooted (e # kept) es)"

definition Clean :: "string \<Rightarrow> string" where
  "Clean path =
     (case path of
        [] \<Rightarrow> ''.''
      | c # _ \<Rightarrow>
          let rooted = (c = CHR ''/'');
              body = strings_Join (clean_elements rooted [] (split_slash path)) ''/''
          in if rooted then CHR ''/'' # body
             else if body = [] then ''.'' else body)"

definition filepath_Join :: "string list \<Rightarrow> string" where
  "filepath_Join elem =
     (case dropWhile (\<lambda>e. e = []) elem of
        [] \<Rightarrow> []
      | es \<Rightarrow> Clean (strings_Join es ''/''))"

fun Sprintf :: "string \<Rightarrow> string list \<Rightarrow> string" where
  "Sprintf (c # d # rest) args =
     (if c = CHR ''%'' \<and> d = CHR ''s'' then
        (case args of
           [] \<Rightarrow> ''%!s(MISSING)'' @ Sprintf rest []
         | a # as \<Rightarrow> a @ Sprintf rest as)
      else c # Sprintf (d # rest) args)"
| "Sprintf rest args = rest"

section \<open>The atomic exchange\<close>

text \<open>The flag values of \<open>golang.org/x/sys/unix\<close> on Linux.\<close>

definition RENAME_NOREPLACE :: nat where
  "RENAME_NOREPLACE = 1"

definition RENAME_EXCHANGE :: nat where
  "RENAME_EXCHANGE = 2"

text \<open>
  \<open>os.Open\<close>: a name that does not exist gives the \<open>PathError\<close> of
  \<open>ENOENT\<close>; the host may refuse an existing name for a reason of its own;
  otherwise the file is open and has a descriptor.
\<close>

definition os_Open :: "host \<Rightarrow> string \<Rightarrow> world \<Rightarrow> (error + nat) \<times> world" where
  "os_Open h name w =
     (let w' = w\<lparr>trace := trace w @ [OsOpen name]\<rparr> in
      if \<not> path_exists h (trace w) name then
        (Inl (PathError ''open'' name ''no such file or directory''), w')
      else
        (case result h (trace w) (OsOpen name) of
           Some err \<Rightarrow> (Inl err, w')
         | None \<Rightarrow> (Inr (fd_of h (trace w) name), w')))"

definition AtomicSwap :: "host \<Rightarrow> string \<Rightarrow> string \<Rightarrow> world \<Rightarrow> error option \<times> world" where
  "AtomicSwap h src dst w =
     (case os_Open h src w of
        (Inl err, w1) \<Rightarrow> (Some err, w1)
      | (Inr orig, w1) \<Rightarrow>
          (case os_Open h dst w1 of
             (Inl err, w2) \<Rightarrow> (Some err, w2)
           | (Inr newfile, w2) \<Rightarrow>
               perform h (Renameat2 orig src newfile dst RENAME_EXCHANGE) w2))"

section \<open>The bootloader recipe\<close>

definition TAB :: char where
  "TAB = CHR 0x09"

text \<open>
  The template of \<open>generateGrubRecipe\<close> is one raw string literal of fifty
  lines; it is written here line by line, joined by newlines.
\<close>

definition template_lines :: "string list" where
  \<open>template_lines =
    [''#!/bin/sh'',
     ''# ABRoot GRUB configuration file'',
     ''# This file is automatically generated by ABRoot'',
     ''# Do not edit this file manually'',
     '''',
     ''exec tail -n +3 $0'',
     '''',
     ''set menu_color_normal=white/black'',
     ''set menu_color_highlight=black/light-gray'',
     '''',
     ''function gfxmode {'',
     [TAB] @ ''set gfxpayload="${1}"'',
     [TAB] @ ''if [ "${1}" = "keep" ]; then'',
     [TAB, TAB, TAB, TAB, TAB] @ ''set vt_handoff=vt.handoff=7'',
     [TAB] @ ''else'',
     [TAB, TAB, TAB, TAB, TAB] @ ''set vt_handoff='',
     [TAB] @ ''fi'',
     ''}'',
     ''if [ "${recordfail}" != 1 ]; then'',
     ''if [ -e ${prefix}/gfxblacklist.txt ]; then'',
     ''if [ ${grub_platform} != pc ]; then'',
     ''  set linux_gfx_mode=keep'',
     ''elif hwmatch ${prefix}/gfxblacklist.txt 3; then'',
     ''  if [ ${match} = 0 ]; then'',
     [TAB] @ ''set linux_gfx_mode=keep'',
     ''  else'',
     [TAB] @ ''set linux_gfx_mode=text'',
     ''  fi'',
     ''else'',
     ''  set linux_gfx_mode=text'',
     ''fi'',
     ''else'',
     ''set linux_gfx_mode=keep'',
     ''fi'',
     ''else'',
     ''set linux_gfx_mode=text'',
     ''fi'',
     ''export linux_gfx_mode'',
     '''',
     ''menuentry '' @ [CHR 0x27] @ ''%s'' @ [CHR 0x27] @ '' --class gnu-linux --class gnu --class os {'',
     [TAB] @ ''recordfail'',
     [TAB] @ ''load_video'',
     [TAB] @ ''gfxmode $linux_gfx_mode'',
     [TAB] @ ''insmod gzio'',
     [TAB] @ ''if [ x$grub_platform = xxen ]; then insmod xzio; insmod lzopio; fi'',
     [TAB] @ ''insmod part_gpt'',
     [TAB] @ ''insmod ext2'',
     [TAB] @ ''search --no-floppy --fs-uuid --set=root %s'',
     [TAB] @ ''linux   /.system/boot/vmlinuz-%s root=UUID=%s quiet splash bgrt_disable $vt_handoff'',
     [TAB] @ ''initrd  /.system/boot/initrd.img-%s'']\<close>

definition template :: string where
  "template = strings_Join template_lines ''\<newline>''"

text \<open>
  \<open>getKernelVersion\<close> only reads the machine: the world stays as it is, and
  the answer of \<open>filepath.Glob\<close> is the host's, at the trace reached.
\<close>

definition getKernelVersion :: "host \<Rightarrow> string \<Rightarrow> world \<Rightarrow> string" where
  "getKernelVersion h rootPath w =
     (let kernelDir = filepath_Join [rootPath, ''boot'', ''vmlinuz-*''] in
      case Glob h (trace w) kernelDir of
        Inl err \<Rightarrow> ''''
      | Inr files \<Rightarrow>
          if length files = 0 then ''''
          else foldl (\<lambda>maxVersion file.
                        let version = Base file in
                        if version > maxVersion then version else maxVersion)
                     '''' files)"

text \<open>
  The file modes \<open>0755\<close> and \<open>0644\<close> are 493 and 420.  A parameter whose
  name is also a field of \<open>Chroot\<close> carries a prime.
\<close>

definition generateGrubRecipe :: "host \<Rightarrow> string \<Rightarrow> string \<Rightarrow> string \<Rightarrow> world \<Rightarrow> error option \<times> world" where
  "generateGrubRecipe h rootPath rootUuid' entryName w =
     (let recipePath = filepath_Join [rootPath, ''etc'', ''grub.d'', ''10_abroot''];
          kernelVersion = getKernelVersion h rootPath w
      in if kernelVersion = '''' then (Some (ErrorsNew ''could not get kernel version''), w)
         else
           let grubDir = filepath_Join [rootPath, ''etc'', ''grub.d''] in
           case perform h (OsMkdirAll grubDir 493) w of
             (Some err, w1) \<Rightarrow> (Some err, w1)
           | (None, w1) \<Rightarrow>
               perform h (WriteFile recipePath
                 (Sprintf template [entryName, rootUuid', kernelVersion, rootUuid', kernelVersion])
                 420) w1)"

section \<open>Opening a chroot session and running commands in it\<close>

definition Execute :: "host \<Rightarrow> Chroot \<Rightarrow> string \<Rightarrow> string list \<Rightarrow> world \<Rightarrow> error option \<times> world" where
  "Execute h c cmd args w =
     (let cmd = strings_Join (cmd # args) '' '' in
      perform h (ExecRun ''chroot'' [root c, ''/bin/sh'', ''-c'', cmd]) w)"

definition ExecuteCmds :: "host \<Rightarrow> Chroot \<Rightarrow> string list \<Rightarrow> world \<Rightarrow> error option \<times> world" where
  "ExecuteCmds h c cmds w = for_range (\<lambda>cmd. Execute h c cmd []) cmds w"

text \<open>
  \<open>os.Stat\<close> followed by \<open>os.IsNotExist\<close>: only a missing root stops
  \<open>NewChroot\<close>; any other failure of \<open>os.Stat\<close> is passed over.
\<close>

definition NewChroot :: "host \<Rightarrow> string \<Rightarrow> string \<Rightarrow> string \<Rightarrow> world \<Rightarrow> (error + Chroot) \<times> world" where
  "NewChroot h root' rootUuid' rootDevice' w =
     (let root' = ReplaceAll_slashes root' in
      if \<not> path_exists h (trace w) root' then
        (Inl (PathError ''stat'' root' ''no such file or directory''), w)
      else
        let chroot = \<lparr>root = root', rootUuid = rootUuid', rootDevice = rootDevice'\<rparr> in
        case Execute h chroot ''mount'' [''--bind'', ''/'', ''/''] w of
          (Some err, w1) \<Rightarrow> (Inl err, w1)
        | (None, w1) \<Rightarrow>
            (case for_range (\<lambda>mount. perform h (ExecRun ''mount'' [''--bind'', mount, root' @ mount]))
                    ReservedMounts w1 of
               (Some err, w2) \<Rightarrow> (Inl err, w2)
             | (None, w2) \<Rightarrow> (Inr chroot, w2)))"

section \<open>The collaborators of the upgrade\<close>

text \<open>
  Modelled from the spec: \<open>Registry.HasUpdate\<close> is not among the source
  files.  The spec has the image backend consulted "for a newer digest than
  the descriptor of the present root": there is an update when the digest
  that the registry holds differs from the one given.
\<close>

definition HasUpdate :: "host \<Rightarrow> call list \<Rightarrow> string \<Rightarrow> bool" where
  "HasUpdate h t digest = (registry_digest h t \<noteq> digest)"

definition CheckUpdate :: "host \<Rightarrow> ABSystem \<Rightarrow> world \<Rightarrow> bool" where
  "CheckUpdate h s w = HasUpdate h (trace w) (Digest (CurImage s))"

text \<open>
  Modelled from the spec: \<open>Partition.Mount\<close> is not among the source files.
  The spec gives a partition a non-empty mount point exactly while this
  process has it mounted: a mount that succeeds records its target in the
  partition, which \<open>Upgrade\<close> reads back as \<open>partFuture.Partition.MountPoint\<close>.
\<close>

definition Partition_Mount :: "host \<Rightarrow> Partition \<Rightarrow> string \<Rightarrow> world \<Rightarrow> error option \<times> Partition \<times> world" where
  "Partition_Mount h p destination w =
     (case perform h (PartitionMount p destination) w of
        (Some err, w') \<Rightarrow> (Some err, p, w')
      | (None, w') \<Rightarrow> (None, p\<lparr>MountPoint := destination\<rparr>, w'))"

text \<open>
  Modelled from the spec: \<open>NewABImage\<close> and \<open>podman.NewContainerFile\<close> are
  not among the source files.  The spec's image descriptor holds a digest
  and an origin reference, and its image recipe is a body layered atop an
  image, with labels: each constructor builds the value from its arguments.
\<close>

definition NewABImage :: "string \<Rightarrow> string \<Rightarrow> ABImage" where
  "NewABImage digest img = \<lparr>Digest = digest, Image = img\<rparr>"

definition NewContainerFile :: "string \<Rightarrow> (string \<times> string) list \<Rightarrow> (string \<times> string) list \<Rightarrow> string \<Rightarrow> ContainerFile" where
  "NewContainerFile img labels args content =
     \<lparr>BaseImage = img, Labels = labels, Args = args, Content = content\<rparr>"

section \<open>Syncing /etc\<close>

definition etcFiles :: "string list" where
  "etcFiles = [''passwd'', ''group'', ''shells'', ''shadow'', ''subuid'', ''subgid'']"

definition SyncEtc :: "host \<Rightarrow> string \<Rightarrow> world \<Rightarrow> error option \<times> world" where
  "SyncEtc h systemEtc w =
     for_range (\<lambda>file.
                  let sourceFile = ''/var/lib/abroot/etc/'' @ file;
                      destFile = systemEtc @ ''/'' @ file
                  in perform h (MergeDiff sourceFile destFile))
               etcFiles w"

section \<open>The upgrade transaction\<close>

text \<open>
  \<open>Upgrade\<close> is one function in the source, cut by its own comments into
  stages 0 to 10.  Each stage from 1 on is a definition here, with the
  values that later stages read as its result; \<open>Upgrade\<close> chains them and
  returns at the first error, as the source does.
\<close>

text \<open>Stage 1: get the future root and boot partitions and mount future to /part-future.\<close>

definition Upgrade_S1 :: "host \<Rightarrow> world \<Rightarrow> (error + ABRootPartition \<times> Partition) \<times> world" where
  "Upgrade_S1 h w =
     (case GetFuture h (trace w) of
        Inl err \<Rightarrow> (Inl err, w)
      | Inr partFuture \<Rightarrow>
          (case GetBoot h (trace w) of
             Inl err \<Rightarrow> (Inl err, w)
           | Inr partBoot \<Rightarrow>
               (case Partition_Mount h (Partition partFuture) ''/part-future/'' w of
                  (Some err, p, w1) \<Rightarrow> (Inl err, w1)
                | (None, p, w1) \<Rightarrow>
                    let partFuture = partFuture\<lparr>Partition := p\<rparr> in
                    (Inr (partFuture, partBoot),
                     AddToCleanUpQueue ''umountFuture'' [VPartition partFuture] w1))))"

text \<open>Stage 2: pull the new image.\<close>

definition Upgrade_S2 :: "host \<Rightarrow> world \<Rightarrow> (error + string \<times> PodmanImage) \<times> world" where
  "Upgrade_S2 h w =
     (let fullImageName = CnfRegistry (Cnf h) @ ''/'' @ CnfName (Cnf h) @ '':'' @ CnfTag (Cnf h) in
      case perform h (PodmanPull fullImageName) w of
        (Some err, w1) \<Rightarrow> (Inl err, w1)
      | (None, w1) \<Rightarrow> (Inr (fullImageName, pulled h (trace w) fullImageName), w1))"

text \<open>Stage 3: make a Containerfile with user packages.\<close>

definition Upgrade_S3 :: "host \<Rightarrow> string \<Rightarrow> world \<Rightarrow> ContainerFile" where
  "Upgrade_S3 h fullImageName w =
     (let pkgsFinal = GetFinalCmd h (trace w);
          labels = [(''maintainer'', [CHR 0x27] @ ''Generated by ABRoot'' @ [CHR 0x27])];
          args = [];
          pkgsFinal = (if pkgsFinal = '''' then ''true'' else pkgsFinal);
          content = ''RUN '' @ pkgsFinal
      in NewContainerFile fullImageName labels args content)"

text \<open>Stage 4: extract the rootfs.\<close>

definition Upgrade_S4 :: "host \<Rightarrow> string \<Rightarrow> ContainerFile \<Rightarrow> ABRootPartition \<Rightarrow> world \<Rightarrow> error option \<times> world" where
  "Upgrade_S4 h fullImageName containerFile partFuture w =
     perform h (PodmanGenerateRootfs fullImageName containerFile
                  (MountPoint (Partition partFuture))
                  (MountPoint (Partition partFuture) @ ''/.system.new/'')) w"

text \<open>Stage 5: write abimage.abr.new to future.\<close>

definition Upgrade_S5 :: "host \<Rightarrow> string \<Rightarrow> PodmanImage \<Rightarrow> ABRootPartition \<Rightarrow> world \<Rightarrow> error option \<times> world" where
  "Upgrade_S5 h fullImageName podmanImage partFuture w =
     (let abimage = NewABImage (ImageDigest podmanImage) fullImageName in
      perform h (ABImageWriteTo abimage (MountPoint (Partition partFuture)) ''new'') w)"

text \<open>Stage 6: atomic swap the rootfs and abimage.abr.\<close>

definition Upgrade_S6 :: "host \<Rightarrow> ABRootPartition \<Rightarrow> world \<Rightarrow> error option \<times> world" where
  "Upgrade_S6 h partFuture w =
     (case AtomicSwap h (MountPoint (Partition partFuture) @ ''/.system/'')
                        (MountPoint (Partition partFuture) @ ''/.system.new/'') w of
        (Some err, w1) \<Rightarrow> (Some err, w1)
      | (None, w1) \<Rightarrow>
          let oldABImage = MountPoint (Partition partFuture) @ ''/abimage.abr'';
              newABImage = MountPoint (Partition partFuture) @ ''/abimage-new.abr''
          in AtomicSwap h oldABImage newABImage w1)"

text \<open>Stage 7: update the bootloader.\<close>

definition Upgrade_S7 :: "host \<Rightarrow> ABRootPartition \<Rightarrow> world \<Rightarrow> error option \<times> world" where
  "Upgrade_S7 h partFuture w =
     (case generateGrubRecipe h (MountPoint (Partition partFuture) @ ''/.system/'')
             (Uuid (Partition partFuture)) (IdentifiedAs partFuture) w of
        (Some err, w1) \<Rightarrow> (Some err, w1)
      | (None, w1) \<Rightarrow>
          (case NewChroot h (MountPoint (Partition partFuture) @ ''/.system/'')
                  (Uuid (Partition partFuture)) (Device (Partition partFuture)) w1 of
             (Inl err, w2) \<Rightarrow> (Some err, w2)
           | (Inr chroot, w2) \<Rightarrow>
               ExecuteCmds h chroot [''grub-mkconfig -o /boot/grub/grub.cfg'', ''exit'']
                 (AddToCleanUpQueue ''closeChroot'' [VChroot chroot] w2)))"

text \<open>Stage 8: sync /etc.\<close>

definition Upgrade_S8 :: "host \<Rightarrow> ABRootPartition \<Rightarrow> world \<Rightarrow> error option \<times> world" where
  "Upgrade_S8 h partFuture w = SyncEtc h (MountPoint (Partition partFuture) @ ''/.system/etc/'') w"

text \<open>Stage 9: mount the boot partition.  The result is the fresh name under /tmp.\<close>

definition Upgrade_S9 :: "host \<Rightarrow> Partition \<Rightarrow> world \<Rightarrow> (error + string) \<times> world" where
  "Upgrade_S9 h partBoot w =
     (let uuid = uuid_New h (trace w) in
      case perform h (OsMkdir (''/tmp/'' @ uuid) 493) w of
        (Some err, w1) \<Rightarrow> (Inl err, w1)
      | (None, w1) \<Rightarrow>
          (case Partition_Mount h partBoot (''/tmp/'' @ uuid) w1 of
             (Some err, p, w2) \<Rightarrow> (Inl err, w2)
           | (None, p, w2) \<Rightarrow> (Inr uuid, w2)))"

text \<open>Stage 10: atomic swap the bootloader.\<close>

definition Upgrade_S10 :: "host \<Rightarrow> string \<Rightarrow> world \<Rightarrow> error option \<times> world" where
  "Upgrade_S10 h uuid w =
     AtomicSwap h (''/tmp/'' @ uuid @ ''/grub.cfg'') (''/tmp/'' @ uuid @ ''/grub.cfg.future'') w"

definition Upgrade :: "host \<Rightarrow> ABSystem \<Rightarrow> world \<Rightarrow> error option \<times> world" where
  "Upgrade h s w =
     (let w0 = ResetQueue w in
      if \<not> CheckUpdate h s w0 then (Some (ErrorsNew ''no update available''), w0)
      else
       (case Upgrade_S1 h w0 of
          (Inl err, w1) \<Rightarrow> (Some err, w1)
        | (Inr (partFuture, partBoot), w1) \<Rightarrow>
       (case Upgrade_S2 h w1 of
          (Inl err, w2) \<Rightarrow> (Some err, w2)
        | (Inr (fullImageName, podmanImage), w2) \<Rightarrow>
       (let containerFile = Upgrade_S3 h fullImageName w2 in
       (case Upgrade_S4 h fullImageName containerFile partFuture w2 of
          (Some err, w4) \<Rightarrow> (Some err, w4)
        | (None, w4) \<Rightarrow>
       (case Upgrade_S5 h fullImageName podmanImage partFuture w4 of
          (Some err, w5) \<Rightarrow> (Some err, w5)
        | (None, w5) \<Rightarrow>
       (case Upgrade_S6 h partFuture w5 of
          (Some err, w6) \<Rightarrow> (Some err, w6)
        | (None, w6) \<Rightarrow>
       (case Upgrade_S7 h partFuture w6 of
          (Some err, w7) \<Rightarrow> (Some err, w7)
        | (None, w7) \<Rightarrow>
       (case Upgrade_S8 h partFuture w7 of
          (Some err, w8) \<Rightarrow> (Some err, w8)
        | (None, w8) \<Rightarrow>
       (case Upgrade_S9 h partBoot w8 of
          (Inl err, w9) \<Rightarrow> (Some err, w9)
        | (Inr uuid, w9) \<Rightarrow>
       (case Upgrade_S10 h uuid w9 of
          (Some err, w10) \<Rightarrow> (Some err, w10)
        | (None, w10) \<Rightarrow> (None, w10))))))))))))"

section \<open>What the queue asks for\<close>

text \<open>
  The calls that one queue entry issues when each of them succeeds: the
  unmount of the partition for \<open>umountFuture\<close>, the five unmounts of
  \<open>Chroot.Close\<close> for \<open>closeChroot\<close>, none for any other entry.
\<close>

definition entry_calls :: "QueuedFunction \<Rightarrow> call list" where
  "entry_calls f =
     (if Name f = ''umountFuture'' then
        (case Values f of
           VPartition futurePart # _ \<Rightarrow> [PartitionUnmount (Partition futurePart)]
         | _ \<Rightarrow> [])
      else if Name f = ''closeChroot'' then
        (case Values f of
           VChroot chroot # _ \<Rightarrow> map (umount chroot) ReservedMounts
         | _ \<Rightarrow> [])
      else [])"

text \<open>The calls that release what the transaction acquired.\<close>

fun is_release :: "call \<Rightarrow> bool" where
  "is_release (PartitionUnmount p) = True"
| "is_release (ExecRun name args) = (name = ''umount'')"
| "is_release c = False"

text \<open>The calls that rename a file: the sources have one, \<open>renameat2\<close>.\<close>

fun is_rename :: "call \<Rightarrow> bool" where
  "is_rename (Renameat2 olddirfd oldpath newdirfd newpath flags) = True"
| "is_rename c = False"

text \<open>The number of \<open>%s\<close> verbs that \<open>Sprintf\<close> meets in a format.\<close>

fun verbs :: "string \<Rightarrow> nat" where
  "verbs (c # d # rest) =
     (if c = CHR ''%'' \<and> d = CHR ''s'' then Suc (verbs rest) else verbs (d # rest))"
| "verbs rest = 0"

section \<open>Example machines\<close>

definition example_future :: ABRootPartition where
  "example_future =
     \<lparr>IdentifiedAs = ''future'',
      Partition = \<lparr>Device = ''/dev/sda3'', MountPoint = '''', Uuid = ''abc-123''\<rparr>\<rparr>"

definition example_boot :: Partition where
  "example_boot = \<lparr>Device = ''/dev/sda1'', MountPoint = '''', Uuid = ''b007''\<rparr>"

text \<open>
  The files under \<open>boot\<close> of the root that the example machine composes, as
  a directory listing gives them, and \<open>filepath.Match\<close> for the patterns the
  sources use: text followed by one \<open>*\<close>, which stands for any run of
  characters other than the separator.
\<close>

definition example_files :: "string list" where
  "example_files =
     [''/part-future/.system/boot/config-6.9.0-1'',
      ''/part-future/.system/boot/initrd.img-6.10.0-1'',
      ''/part-future/.system/boot/initrd.img-6.5.0-1'',
      ''/part-future/.system/boot/initrd.img-6.9.0-1'',
      ''/part-future/.system/boot/vmlinuz-6.10.0-1'',
      ''/part-future/.system/boot/vmlinuz-6.5.0-1'',
      ''/part-future/.system/boot/vmlinuz-6.9.0-1'']"

definition Match_star :: "string \<Rightarrow> string \<Rightarrow> bool" where
  "Match_star pattern name =
     (if pattern \<noteq> [] \<and> last pattern = CHR ''*''
      then take (length pattern - 1) name = butlast pattern
           \<and> CHR ''/'' \<notin> set (drop (length pattern - 1) name)
      else name = pattern)"

definition example_kernels :: "string list" where
  "example_kernels =
     [''/part-future/.system/boot/vmlinuz-6.10.0-1'',
      ''/part-future/.system/boot/vmlinuz-6.5.0-1'',
      ''/part-future/.system/boot/vmlinuz-6.9.0-1'']"

text \<open>A machine on which every call succeeds and an update is waiting.\<close>

definition host_ok :: host where
  "host_ok =
     \<lparr>result = (\<lambda>t c. None),
      registry_digest = (\<lambda>t. ''sha:B''),
      GetFuture = (\<lambda>t. Inr example_future),
      GetBoot = (\<lambda>t. Inr example_boot),
      pulled = (\<lambda>t name. \<lparr>ImageDigest = ''sha:B''\<rparr>),
      GetFinalCmd = (\<lambda>t. ''''),
      path_exists = (\<lambda>t name. True),
      fd_of = (\<lambda>t name. 3),
      Glob = (\<lambda>t pattern. Inr (filter (Match_star pattern) example_files)),
      uuid_New = (\<lambda>t. ''0b5e''),
      Cnf = \<lparr>CnfRegistry = ''ghcr.io'', CnfName = ''vanilla-os/desktop'', CnfTag = ''main''\<rparr>\<rparr>"

text \<open>The same machine, except that one call fails whenever it is issued.\<close>

definition host_failing :: "call \<Rightarrow> error \<Rightarrow> host" where
  "host_failing c err = host_ok\<lparr>result := (\<lambda>t c'. if c' = c then Some err else None)\<rparr>"

definition example_system :: ABSystem where
  "example_system = \<lparr>CurImage = \<lparr>Digest = ''sha:A'', Image = ''ghcr.io/vanilla-os/desktop:main''\<rparr>\<rparr>"

definition example_chroot :: Chroot where
  "example_chroot =
     \<lparr>root = ''/part-future/.system/'', rootUuid = ''abc-123'', rootDevice = ''/dev/sda3''\<rparr>"

definition world0 :: world where
  "world0 = \<lparr>queue = [], trace = []\<rparr>"

text \<open>Two mounted partitions, and the world after an unmount was queued for each.\<close>

definition part_a :: ABRootPartition where
  "part_a = \<lparr>IdentifiedAs = ''a'', Partition = \<lparr>Device = ''/dev/sda2'', MountPoint = ''/part-a/'', Uuid = ''aaaa''\<rparr>\<rparr>"

definition part_b :: ABRootPartition where
  "part_b = \<lparr>IdentifiedAs = ''b'', Partition = \<lparr>Device = ''/dev/sda3'', MountPoint = ''/part-b/'', Uuid = ''bbbb''\<rparr>\<rparr>"

definition two_pushed :: world where
  "two_pushed = AddToCleanUpQueue ''umountFuture'' [VPartition part_b]
                  (AddToCleanUpQueue ''umountFuture'' [VPartition part_a] world0)"

text \<open>
  \<open>quiet w w'\<close>: the world \<open>w'\<close> is reached from \<open>w\<close> by further calls, none
  of which releases anything.
\<close>

definition quiet :: "world \<Rightarrow> world \<Rightarrow> bool" where
  "quiet w w' \<longleftrightarrow> (\<exists>cs. trace w' = trace w @ cs \<and> filter is_release cs = [])"

text \<open>
  Two ways in which a run that starts in \<open>w\<close> can end, used to follow
  \<open>Upgrade\<close> through its stages.  \<open>keeps w res\<close>: only quiet calls were made
  and the queue is as in \<open>w\<close>.  \<open>keeps_or_opens w res\<close>: only quiet calls were
  made, and either the run failed with the queue as in \<open>w\<close> or one
  \<open>closeChroot\<close> entry was added to it.
\<close>

definition keeps :: "world \<Rightarrow> error option \<times> world \<Rightarrow> bool" where
  "keeps w res \<longleftrightarrow> quiet w (snd res) \<and> queue (snd res) = queue w"

definition keeps_or_opens :: "world \<Rightarrow> error option \<times> world \<Rightarrow> bool" where
  "keeps_or_opens w res \<longleftrightarrow>
     quiet w (snd res) \<and>
     (queue (snd res) = queue w \<and> fst res \<noteq> None
      \<or> (\<exists>chroot. queue (snd res) = queue w @ [\<lparr>Name = ''closeChroot'', Values = [VChroot chroot]\<rparr>]))"

text \<open>The future partition of the example machine once it is mounted.\<close>

definition mounted_future :: ABRootPartition where
  "mounted_future =
     \<lparr>IdentifiedAs = ''future'',
      Partition = \<lparr>Device = ''/dev/sda3'', MountPoint = ''/part-future/'', Uuid = ''abc-123''\<rparr>\<rparr>"

text \<open>
  The first ten calls of an upgrade on the example machine, up to the
  exchange of the descriptors, and the world after the first \<open>n\<close> of them.
\<close>

definition example_trace :: "call list" where
  "example_trace =
     [PartitionMount (Partition example_future) ''/part-future/'',
      PodmanPull ''ghcr.io/vanilla-os/desktop:main'',
      PodmanGenerateRootfs ''ghcr.io/vanilla-os/desktop:main''
        \<lparr>BaseImage = ''ghcr.io/vanilla-os/desktop:main'',
         Labels = [(''maintainer'', [CHR 0x27] @ ''Generated by ABRoot'' @ [CHR 0x27])],
         Args = [], Content = ''RUN true''\<rparr>
        ''/part-future/'' ''/part-future//.system.new/'',
      ABImageWriteTo \<lparr>Digest = ''sha:B'', Image = ''ghcr.io/vanilla-os/desktop:main''\<rparr> ''/part-future/'' ''new'',
      OsOpen ''/part-future//.system/'',
      OsOpen ''/part-future//.system.new/'',
      Renameat2 3 ''/part-future//.system/'' 3 ''/part-future//.system.new/'' 2,
      OsOpen ''/part-future//abimage.abr'',
      OsOpen ''/part-future//abimage-new.abr'',
      Renameat2 3 ''/part-future//abimage.abr'' 3 ''/part-future//abimage-new.abr'' 2]"

definition example_at :: "nat \<Rightarrow> world" where
  "example_at n =
     \<lparr>queue = [\<lparr>Name = ''umountFuture'', Values = [VPartition mounted_future]\<rparr>],
      trace = take n example_trace\<rparr>"

text \<open>Machines on which the kernel refuses one of the two exchanges of stage 6.\<close>

definition refusing_first_exchange :: host where
  "refusing_first_exchange =
     host_failing (Renameat2 3 ''/part-future//.system/'' 3 ''/part-future//.system.new/'' 2)
       (HostError ''invalid argument'')"

definition refusing_second_exchange :: host where
  "refusing_second_exchange =
     host_failing (Renameat2 3 ''/part-future//abimage.abr'' 3 ''/part-future//abimage-new.abr'' 2)
       (HostError ''invalid argument'')"

section \<open>Calls, loops and the drain: basic facts\<close>

lemma perform_simps [simp]:
  "fst (perform h c w) = result h (trace w) c"
  "trace (snd (perform h c w)) = trace w @ [c]"
  "queue (snd (perform h c w)) = queue w"
  by (simp_all add: perform_def)

lemma for_range_Cons_perform:
  "for_range (\<lambda>x. perform h (g x)) (x # xs) w =
     (case result h (trace w) (g x) of
        Some err \<Rightarrow> (Some err, w\<lparr>trace := trace w @ [g x]\<rparr>)
      | None \<Rightarrow> for_range (\<lambda>x. perform h (g x)) xs (w\<lparr>trace := trace w @ [g x]\<rparr>))"
  by (simp add: perform_def)

lemma for_range_perform:
  "for_range (\<lambda>x. perform h (g x)) xs w = (r, w') \<Longrightarrow>
   \<exists>k. k \<le> length xs
     \<and> trace w' = trace w @ map g (take k xs)
     \<and> queue w' = queue w
     \<and> (r = None \<longrightarrow> k = length xs)
     \<and> (\<forall>err. r = Some err \<longrightarrow>
            0 < k \<and> result h (trace w @ map g (take (k - 1) xs)) (g (xs ! (k - 1))) = Some err)"
proof (induction xs arbitrary: w)
  case Nil
  then show ?case by auto
next
  case (Cons x xs)
  show ?case
  proof (cases "result h (trace w) (g x)")
    case (Some e)
    then have "r = Some e" "w' = w\<lparr>trace := trace w @ [g x]\<rparr>"
      using Cons.prems by (simp_all add: for_range_Cons_perform del: for_range.simps)
    then show ?thesis using Some
      by (intro exI [of _ 1]) simp
  next
    case None
    define w1 where "w1 = w\<lparr>trace := trace w @ [g x]\<rparr>"
    have "for_range (\<lambda>x. perform h (g x)) xs w1 = (r, w')"
      using None Cons.prems by (simp add: for_range_Cons_perform w1_def del: for_range.simps)
    from Cons.IH [OF this] obtain k where k: "k \<le> length xs"
      "trace w' = trace w1 @ map g (take k xs)"
      "queue w' = queue w1"
      "r = None \<longrightarrow> k = length xs"
      "\<forall>err. r = Some err \<longrightarrow>
            0 < k \<and> result h (trace w1 @ map g (take (k - 1) xs)) (g (xs ! (k - 1))) = Some err"
      by auto
    have last: "result h (trace w @ map g (take k (x # xs))) (g ((x # xs) ! k)) = Some err"
      if "r = Some err" for err
    proof -
      from that k(5) have "0 < k" and *: "result h (trace w1 @ map g (take (k - 1) xs)) (g (xs ! (k - 1))) = Some err"
        by auto
      then obtain j where "k = Suc j" by (cases k) auto
      with * show ?thesis by (simp add: w1_def)
    qed
    show ?thesis
      using k(1-4) last by (intro exI [of _ "Suc k"]) (simp add: w1_def)
  qed
qed

lemma Close_calls:
  "\<exists>k. 0 < k \<and> k \<le> length ReservedMounts
     \<and> trace (snd (Close h c w)) = trace w @ map (umount c) (take k ReservedMounts)
     \<and> queue (snd (Close h c w)) = queue w
     \<and> (fst (Close h c w) = None \<longrightarrow> k = length ReservedMounts)
     \<and> (\<forall>err. fst (Close h c w) = Some err \<longrightarrow>
           result h (trace w @ map (umount c) (take (k - 1) ReservedMounts))
             (umount c (ReservedMounts ! (k - 1))) = Some err)"
proof -
  obtain r w' where rw: "Close h c w = (r, w')" by (cases "Close h c w")
  then have "for_range (\<lambda>mount. perform h (umount c mount)) ReservedMounts w = (r, w')"
    by (simp add: Close_def)
  from for_range_perform [OF this]
  obtain k where k: "k \<le> length ReservedMounts"
     "trace w' = trace w @ map (umount c) (take k ReservedMounts)"
     "queue w' = queue w"
     "r = None \<longrightarrow> k = length ReservedMounts"
     "\<forall>err. r = Some err \<longrightarrow>
            0 < k \<and> result h (trace w @ map (umount c) (take (k - 1) ReservedMounts)) (umount c (ReservedMounts ! (k - 1))) = Some err"
    by auto
  have "0 < k"
  proof (cases r)
    case None
    then show ?thesis using k(4) by (simp add: ReservedMounts_def)
  next
    case (Some e)
    then show ?thesis using k(5) by simp
  qed
  then show ?thesis using k rw by (intro exI [of _ k]) simp
qed

lemma Close_queue [simp]: "queue (snd (Close h c w)) = queue w"
  using Close_calls [of h c w] by auto

lemma case_umount:
  "Name f = ''umountFuture'' \<Longrightarrow> Values f = VPartition p # vs \<Longrightarrow>
   RunCleanUpQueue_case h f w =
     (Return (result h (trace w) (PartitionUnmount (Partition p))),
      w\<lparr>trace := trace w @ [PartitionUnmount (Partition p)]\<rparr>)"
  by (simp add: RunCleanUpQueue_case_def perform_def)

lemma case_close:
  "Name f = ''closeChroot'' \<Longrightarrow> Values f = VChroot c # vs \<Longrightarrow>
   RunCleanUpQueue_case h f w = (Return (fst (Close h c w)), snd (Close h c w))"
  by (simp add: RunCleanUpQueue_case_def split: prod.splits)

lemma case_skip:
  "Name f \<noteq> ''umountFuture'' \<Longrightarrow> Name f \<noteq> ''closeChroot'' \<Longrightarrow>
   RunCleanUpQueue_case h f w = (Return None, w)"
  by (simp add: RunCleanUpQueue_case_def)

lemma case_panic_umount:
  "Name f = ''umountFuture'' \<Longrightarrow> \<nexists>p vs. Values f = VPartition p # vs \<Longrightarrow>
   RunCleanUpQueue_case h f w = (Panic, w)"
  by (auto simp add: RunCleanUpQueue_case_def split: list.splits interface.splits)

lemma case_panic_close:
  "Name f = ''closeChroot'' \<Longrightarrow> \<nexists>c vs. Values f = VChroot c # vs \<Longrightarrow>
   RunCleanUpQueue_case h f w = (Panic, w)"
  by (auto simp add: RunCleanUpQueue_case_def split: list.splits interface.splits)

lemma entry_calls_umount:
  "Name f = ''umountFuture'' \<Longrightarrow> Values f = VPartition p # vs \<Longrightarrow>
   entry_calls f = [PartitionUnmount (Partition p)]"
  by (simp add: entry_calls_def)

lemma entry_calls_close:
  "Name f = ''closeChroot'' \<Longrightarrow> Values f = VChroot c # vs \<Longrightarrow>
   entry_calls f = map (umount c) ReservedMounts"
  by (simp add: entry_calls_def)

lemma entry_calls_skip:
  "Name f \<noteq> ''umountFuture'' \<Longrightarrow> Name f \<noteq> ''closeChroot'' \<Longrightarrow> entry_calls f = []"
  by (simp add: entry_calls_def)

lemma entry_calls_panic_umount:
  "Name f = ''umountFuture'' \<Longrightarrow> \<nexists>p vs. Values f = VPartition p # vs \<Longrightarrow> entry_calls f = []"
  by (auto simp add: entry_calls_def split: list.splits interface.splits)

lemma entry_calls_panic_close:
  "Name f = ''closeChroot'' \<Longrightarrow> \<nexists>c vs. Values f = VChroot c # vs \<Longrightarrow> entry_calls f = []"
  by (auto simp add: entry_calls_def split: list.splits interface.splits)

lemma entry_kinds:
  obtains (umount) p vs where "Name f = ''umountFuture''" "Values f = VPartition p # vs"
  | (close) c vs where "Name f = ''closeChroot''" "Values f = VChroot c # vs"
  | (panic_umount) "Name f = ''umountFuture''" "\<nexists>p vs. Values f = VPartition p # vs"
  | (panic_close) "Name f = ''closeChroot''" "\<nexists>c vs. Values f = VChroot c # vs"
  | (skip) "Name f \<noteq> ''umountFuture''" "Name f \<noteq> ''closeChroot''"
  by blast

lemma case_calls:
  "\<exists>n\<le>length (entry_calls f).
      trace (snd (RunCleanUpQueue_case h f w)) = trace w @ take n (entry_calls f)
    \<and> queue (snd (RunCleanUpQueue_case h f w)) = queue w
    \<and> (fst (RunCleanUpQueue_case h f w) = Return None \<longrightarrow> n = length (entry_calls f))
    \<and> (\<forall>e. fst (RunCleanUpQueue_case h f w) = Return (Some e) \<longrightarrow> 0 < n)"
proof (cases f rule: entry_kinds)
  case (umount p vs)
  then show ?thesis
    by (intro exI [of _ 1]) (simp add: case_umount entry_calls_umount)
next
  case (close c vs)
  from Close_calls [of h c w] obtain k where k: "0 < k" "k \<le> length ReservedMounts"
    "trace (snd (Close h c w)) = trace w @ map (umount c) (take k ReservedMounts)"
    "fst (Close h c w) = None \<longrightarrow> k = length ReservedMounts"
    by auto
  with close show ?thesis
    by (intro exI [of _ k]) (simp add: case_close entry_calls_close take_map)
next
  case panic_umount
  then show ?thesis by (simp add: case_panic_umount entry_calls_panic_umount)
next
  case panic_close
  then show ?thesis by (simp add: case_panic_close entry_calls_panic_close)
next
  case skip
  then show ?thesis by (simp add: case_skip entry_calls_skip)
qed

lemma loop_calls:
  "\<exists>n\<le>length (concat (map entry_calls q)).
      trace (snd (RunCleanUpQueue_loop h q w)) = trace w @ take n (concat (map entry_calls q))
    \<and> queue (snd (RunCleanUpQueue_loop h q w)) = queue w
    \<and> (fst (RunCleanUpQueue_loop h q w) = Return None \<longrightarrow> n = length (concat (map entry_calls q)))"
proof (induction q arbitrary: w)
  case Nil
  then show ?case by simp
next
  case (Cons f fs)
  obtain r1 w1 where c1: "RunCleanUpQueue_case h f w = (r1, w1)"
    by (cases "RunCleanUpQueue_case h f w")
  from case_calls [of f h w] c1 obtain n1 where n1: "n1 \<le> length (entry_calls f)"
    "trace w1 = trace w @ take n1 (entry_calls f)" "queue w1 = queue w"
    "r1 = Return None \<longrightarrow> n1 = length (entry_calls f)"
    by auto
  show ?case
  proof (cases "r1 = Return None")
    case True
    then have step: "RunCleanUpQueue_loop h (f # fs) w = RunCleanUpQueue_loop h fs w1"
      using c1 by simp
    from Cons.IH [of w1] obtain n2 where n2: "n2 \<le> length (concat (map entry_calls fs))"
      "trace (snd (RunCleanUpQueue_loop h fs w1)) = trace w1 @ take n2 (concat (map entry_calls fs))"
      "queue (snd (RunCleanUpQueue_loop h fs w1)) = queue w1"
      "fst (RunCleanUpQueue_loop h fs w1) = Return None \<longrightarrow> n2 = length (concat (map entry_calls fs))"
      by auto
    from True n1 have full: "n1 = length (entry_calls f)" by simp
    show ?thesis
      unfolding step using n1 n2 full
      by (intro exI [of _ "length (entry_calls f) + n2"]) simp
  next
    case False
    then have stop: "RunCleanUpQueue_loop h (f # fs) w = (r1, w1)"
      using c1 by (cases r1; auto split: option.splits)
    show ?thesis
      unfolding stop using n1 False by (intro exI [of _ n1]) simp
  qed
qed

lemma Execute_eq:
  "Execute h c cmd args w =
     (result h (trace w) (ExecRun ''chroot'' [root c, ''/bin/sh'', ''-c'', strings_Join (cmd # args) '' '']),
      w\<lparr>trace := trace w @ [ExecRun ''chroot'' [root c, ''/bin/sh'', ''-c'', strings_Join (cmd # args) '' '']]\<rparr>)"
  by (simp add: Execute_def perform_def Let_def)

lemma NewChroot_calls:
  assumes "NewChroot h r u d w = (Inr c, w')"
  shows "c = \<lparr>root = ReplaceAll_slashes r, rootUuid = u, rootDevice = d\<rparr>"
    and "trace w' = trace w @ ExecRun ''chroot'' [root c, ''/bin/sh'', ''-c'', ''mount --bind / /'']
            # map (\<lambda>mount. ExecRun ''mount'' [''--bind'', mount, root c @ mount]) ReservedMounts"
    and "queue w' = queue w"
proof -
  define r' where "r' = ReplaceAll_slashes r"
  define c' where "c' = \<lparr>root = r', rootUuid = u, rootDevice = d\<rparr>"
  define w1 where "w1 = w\<lparr>trace := trace w @ [ExecRun ''chroot'' [r', ''/bin/sh'', ''-c'', ''mount --bind / /'']]\<rparr>"
  have ex: "Execute h c' ''mount'' [''--bind'', ''/'', ''/''] w
        = (result h (trace w) (ExecRun ''chroot'' [r', ''/bin/sh'', ''-c'', ''mount --bind / /'']), w1)"
    by (simp add: Execute_eq c'_def w1_def)
  define L where "L = for_range (\<lambda>mount. perform h (ExecRun ''mount'' [''--bind'', mount, r' @ mount])) ReservedMounts w1"
  have eq: "NewChroot h r u d w =
      (if \<not> path_exists h (trace w) r' then (Inl (PathError ''stat'' r' ''no such file or directory''), w)
       else case result h (trace w) (ExecRun ''chroot'' [r', ''/bin/sh'', ''-c'', ''mount --bind / /'']) of
              Some err \<Rightarrow> (Inl err, w1)
            | None \<Rightarrow> (case L of (Some err, w2) \<Rightarrow> (Inl err, w2) | (None, w2) \<Rightarrow> (Inr c', w2)))"
    unfolding NewChroot_def Let_def r'_def [symmetric] c'_def [symmetric] ex L_def
    by (simp split: option.splits)
  obtain rl wl where L: "L = (rl, wl)" by (cases L)
  have *: "c = c' \<and> L = (None, w')"
  proof (cases "path_exists h (trace w) r'")
    case False
    with assms eq show ?thesis by simp
  next
    case True
    show ?thesis
    proof (cases "result h (trace w) (ExecRun ''chroot'' [r', ''/bin/sh'', ''-c'', ''mount --bind / /''])")
      case (Some e)
      with True assms eq show ?thesis by simp
    next
      case None
      with True assms eq L show ?thesis by (cases rl) simp_all
    qed
  qed
  then show "c = \<lparr>root = ReplaceAll_slashes r, rootUuid = u, rootDevice = d\<rparr>"
    by (simp add: c'_def r'_def)
  from * for_range_perform [of h "\<lambda>mount. ExecRun ''mount'' [''--bind'', mount, r' @ mount]" ReservedMounts w1 None w', unfolded L_def [symmetric]]
  have "trace w' = trace w1 @ map (\<lambda>mount. ExecRun ''mount'' [''--bind'', mount, r' @ mount]) ReservedMounts"
    and "queue w' = queue w1"
    by auto
  then show "trace w' = trace w @ ExecRun ''chroot'' [root c, ''/bin/sh'', ''-c'', ''mount --bind / /'']
            # map (\<lambda>mount. ExecRun ''mount'' [''--bind'', mount, root c @ mount]) ReservedMounts"
    and "queue w' = queue w"
    using * by (simp_all add: w1_def c'_def)
qed

section \<open>Closing a chroot session\<close>

lemma for_range_perform_last:
  "for_range (\<lambda>x. perform h (g x)) xs w = (r, w') \<Longrightarrow>
   \<exists>k. k \<le> length xs
     \<and> trace w' = trace w @ map g (take k xs)
     \<and> (\<forall>i. i < k - 1 \<longrightarrow> result h (trace w @ map g (take i xs)) (g (xs ! i)) = None)
     \<and> (0 < k \<longrightarrow> r = result h (trace w @ map g (take (k - 1) xs)) (g (xs ! (k - 1))))
     \<and> (k = 0 \<longrightarrow> r = None)
     \<and> (r = None \<longrightarrow> k = length xs)"
proof (induction xs arbitrary: w)
  case Nil
  then have "r = None" "w' = w" by simp_all
  then show ?case by (intro exI [of _ 0]) simp
next
  case (Cons x xs)
  show ?case
  proof (cases "result h (trace w) (g x)")
    case (Some e)
    then have "r = Some e" "w' = w\<lparr>trace := trace w @ [g x]\<rparr>"
      using Cons.prems by (simp_all add: for_range_Cons_perform del: for_range.simps)
    then show ?thesis using Some
      by (intro exI [of _ 1]) simp
  next
    case None
    define w1 where "w1 = w\<lparr>trace := trace w @ [g x]\<rparr>"
    have "for_range (\<lambda>x. perform h (g x)) xs w1 = (r, w')"
      using None Cons.prems by (simp add: for_range_Cons_perform w1_def del: for_range.simps)
    from Cons.IH [OF this] obtain k where kk: "k \<le> length xs
      \<and> trace w' = trace w1 @ map g (take k xs)
      \<and> (\<forall>i. i < k - 1 \<longrightarrow> result h (trace w1 @ map g (take i xs)) (g (xs ! i)) = None)
      \<and> (0 < k \<longrightarrow> r = result h (trace w1 @ map g (take (k - 1) xs)) (g (xs ! (k - 1))))
      \<and> (k = 0 \<longrightarrow> r = None)
      \<and> (r = None \<longrightarrow> k = length xs)" ..
    then have k: "k \<le> length xs"
      "trace w' = trace w1 @ map g (take k xs)"
      "\<forall>i. i < k - 1 \<longrightarrow> result h (trace w1 @ map g (take i xs)) (g (xs ! i)) = None"
      "0 < k \<longrightarrow> r = result h (trace w1 @ map g (take (k - 1) xs)) (g (xs ! (k - 1)))"
      "k = 0 \<longrightarrow> r = None"
      "r = None \<longrightarrow> k = length xs"
      by blast+
    have earlier: "result h (trace w @ map g (take i (x # xs))) (g ((x # xs) ! i)) = None"
      if "i < k" for i
    proof (cases i)
      case 0
      then show ?thesis using None by simp
    next
      case (Suc j)
      with that have "j < k - 1" by simp
      with k(3) have "result h (trace w1 @ map g (take j xs)) (g (xs ! j)) = None" by blast
      then show ?thesis by (simp add: Suc w1_def)
    qed
    have final: "r = result h (trace w @ map g (take k (x # xs))) (g ((x # xs) ! k))"
    proof (cases k)
      case 0
      then show ?thesis using k(5) None by simp
    next
      case (Suc j)
      with k(4) have "r = result h (trace w1 @ map g (take j xs)) (g (xs ! j))" by simp
      then show ?thesis by (simp add: Suc w1_def)
    qed
    have c1: "Suc k \<le> length (x # xs)" using k(1) by simp
    have c2: "trace w' = trace w @ map g (take (Suc k) (x # xs))"
      using k(2) by (simp add: w1_def)
    have c3: "\<forall>i. i < Suc k - 1 \<longrightarrow>
        result h (trace w @ map g (take i (x # xs))) (g ((x # xs) ! i)) = None"
    proof (intro allI impI)
      fix i assume "i < Suc k - 1"
      then have "i < k" by simp
      then show "result h (trace w @ map g (take i (x # xs))) (g ((x # xs) ! i)) = None"
        by (rule earlier)
    qed
    have c4: "0 < Suc k \<longrightarrow>
        r = result h (trace w @ map g (take (Suc k - 1) (x # xs))) (g ((x # xs) ! (Suc k - 1)))"
      using final by (simp only: diff_Suc_1 simp_thms)
    have c5: "Suc k = 0 \<longrightarrow> r = None" by simp
    have c6: "r = None \<longrightarrow> Suc k = length (x # xs)" using k(6) by simp
    show ?thesis
      by (rule exI [of _ "Suc k"]) (intro conjI c1 c2 c3 c4 c5 c6)
  qed
qed

lemma Close_calls_last:
  "\<exists>k. 0 < k \<and> k \<le> length ReservedMounts
     \<and> trace (snd (Close h c w)) = trace w @ map (umount c) (take k ReservedMounts)
     \<and> (\<forall>i. i < k - 1 \<longrightarrow>
           result h (trace w @ map (umount c) (take i ReservedMounts)) (umount c (ReservedMounts ! i)) = None)
     \<and> fst (Close h c w) =
         result h (trace w @ map (umount c) (take (k - 1) ReservedMounts)) (umount c (ReservedMounts ! (k - 1)))
     \<and> (fst (Close h c w) = None \<longrightarrow> k = length ReservedMounts)"
proof -
  obtain r w' where rw: "Close h c w = (r, w')" by (cases "Close h c w")
  then have "for_range (\<lambda>mount. perform h (umount c mount)) ReservedMounts w = (r, w')"
    by (simp add: Close_def)
  from for_range_perform_last [OF this]
  obtain k where kk: "k \<le> length ReservedMounts
     \<and> trace w' = trace w @ map (umount c) (take k ReservedMounts)
     \<and> (\<forall>i. i < k - 1 \<longrightarrow>
        result h (trace w @ map (umount c) (take i ReservedMounts)) (umount c (ReservedMounts ! i)) = None)
     \<and> (0 < k \<longrightarrow> r = result h (trace w @ map (umount c) (take (k - 1) ReservedMounts)) (umount c (ReservedMounts ! (k - 1))))
     \<and> (k = 0 \<longrightarrow> r = None)
     \<and> (r = None \<longrightarrow> k = length ReservedMounts)" ..
  then have k: "k \<le> length ReservedMounts"
     "trace w' = trace w @ map (umount c) (take k ReservedMounts)"
     "\<forall>i. i < k - 1 \<longrightarrow>
        result h (trace w @ map (umount c) (take i ReservedMounts)) (umount c (ReservedMounts ! i)) = None"
     "0 < k \<longrightarrow> r = result h (trace w @ map (umount c) (take (k - 1) ReservedMounts)) (umount c (ReservedMounts ! (k - 1)))"
     "k = 0 \<longrightarrow> r = None"
     "r = None \<longrightarrow> k = length ReservedMounts"
    by blast+
  have pos: "0 < k"
  proof (rule ccontr)
    assume "\<not> 0 < k"
    then have "k = 0" by simp
    with k(5,6) show False by (simp add: ReservedMounts_def)
  qed
  have r: "fst (Close h c w) = r" and w': "snd (Close h c w) = w'"
    by (simp_all add: rw)
  from k(4) pos
  have last: "r = result h (trace w @ map (umount c) (take (k - 1) ReservedMounts)) (umount c (ReservedMounts ! (k - 1)))"
    by (rule mp)
  show ?thesis
  proof (intro exI [of _ k] conjI)
    show "0 < k" by (fact pos)
    show "k \<le> length ReservedMounts" by (fact k(1))
    show "trace (snd (Close h c w)) = trace w @ map (umount c) (take k ReservedMounts)"
      by (simp only: w' k(2))
    show "\<forall>i. i < k - 1 \<longrightarrow>
        result h (trace w @ map (umount c) (take i ReservedMounts)) (umount c (ReservedMounts ! i)) = None"
      by (fact k(3))
    show "fst (Close h c w) =
        result h (trace w @ map (umount c) (take (k - 1) ReservedMounts)) (umount c (ReservedMounts ! (k - 1)))"
      unfolding r by (fact last)
    show "fst (Close h c w) = None \<longrightarrow> k = length ReservedMounts"
      unfolding r by (fact k(6))
  qed
qed

lemma umount_distinct: "distinct (map (umount c) (take k ReservedMounts))"
proof -
  have "inj (umount c)" by (simp add: inj_on_def umount_def)
  then have "inj_on (umount c) (set (take k ReservedMounts))" by (rule inj_on_subset) simp
  moreover have "distinct (take k ReservedMounts)" by (simp add: ReservedMounts_def)
  ultimately show ?thesis by (simp add: distinct_map)
qed

text \<open>
  Claim C6, as the code has it.  The calls of \<open>Chroot.Close\<close> are unmounts of
  reserved mounts (\<open>/dev\<close>, \<open>/dev/pts\<close>, \<open>/proc\<close>, \<open>/run\<close>, \<open>/sys\<close> under the
  root), at least one and none twice.  Every unmount but the last one made
  has succeeded, and what \<open>Close\<close> returns is the outcome of the last one: so
  the first unmount that fails ends \<open>Close\<close>, which returns that error and
  attempts none of the remaining unmounts.  When \<open>Close\<close> returns nil, all
  five reserved mounts have been unmounted.
\<close>

theorem Close_ends_at_first_failure:
  "\<exists>cs. trace (snd (Close h c w)) = trace w @ cs
     \<and> cs \<noteq> [] \<and> distinct cs
     \<and> set cs \<subseteq> umount c ` set ReservedMounts
     \<and> (\<forall>i. i < length cs - 1 \<longrightarrow> result h (trace w @ take i cs) (cs ! i) = None)
     \<and> fst (Close h c w) = result h (trace w @ butlast cs) (last cs)
     \<and> (fst (Close h c w) = None \<longrightarrow> set cs = umount c ` set ReservedMounts)"
proof -
  from Close_calls_last [of h c w] obtain k where kk: "0 < k \<and> k \<le> length ReservedMounts
     \<and> trace (snd (Close h c w)) = trace w @ map (umount c) (take k ReservedMounts)
     \<and> (\<forall>i. i < k - 1 \<longrightarrow>
           result h (trace w @ map (umount c) (take i ReservedMounts)) (umount c (ReservedMounts ! i)) = None)
     \<and> fst (Close h c w) =
         result h (trace w @ map (umount c) (take (k - 1) ReservedMounts)) (umount c (ReservedMounts ! (k - 1)))
     \<and> (fst (Close h c w) = None \<longrightarrow> k = length ReservedMounts)" ..
  then have k: "0 < k" "k \<le> length ReservedMounts"
    and tr: "trace (snd (Close h c w)) = trace w @ map (umount c) (take k ReservedMounts)"
    and earlier: "\<forall>i. i < k - 1 \<longrightarrow>
       result h (trace w @ map (umount c) (take i ReservedMounts)) (umount c (ReservedMounts ! i)) = None"
    and final: "fst (Close h c w) =
       result h (trace w @ map (umount c) (take (k - 1) ReservedMounts)) (umount c (ReservedMounts ! (k - 1)))"
    and all: "fst (Close h c w) = None \<longrightarrow> k = length ReservedMounts"
    by blast+
  define cs where "cs = map (umount c) (take k ReservedMounts)"
  have len: "length cs = k" using k(2) by (simp add: cs_def)
  have tk: "take i cs = map (umount c) (take i ReservedMounts)" if "i \<le> k" for i
    using that by (simp add: cs_def take_map min_def)
  have nth: "cs ! i = umount c (ReservedMounts ! i)" if "i < k" for i
    using that k(2) by (simp add: cs_def)
  have ne: "cs \<noteq> []" using len k(1) by auto
  have bl: "butlast cs = map (umount c) (take (k - 1) ReservedMounts)"
    using tk [of "k - 1"] len by (simp add: butlast_conv_take)
  have la: "last cs = umount c (ReservedMounts ! (k - 1))"
    using nth [of "k - 1"] k(1) len ne by (simp add: last_conv_nth)
  have f1: "trace (snd (Close h c w)) = trace w @ cs" by (simp add: tr cs_def)
  have f2: "distinct cs" unfolding cs_def by (rule umount_distinct)
  have f3: "set cs \<subseteq> umount c ` set ReservedMounts"
    unfolding cs_def using set_take_subset [of k ReservedMounts] by auto
  have f4: "\<forall>i. i < length cs - 1 \<longrightarrow> result h (trace w @ take i cs) (cs ! i) = None"
  proof (intro allI impI)
    fix i assume "i < length cs - 1"
    then have i: "i < k - 1" by (simp add: len)
    then have "i \<le> k" "i < k" by simp_all
    then show "result h (trace w @ take i cs) (cs ! i) = None"
      using earlier i by (simp add: tk nth)
  qed
  have f5: "fst (Close h c w) = result h (trace w @ butlast cs) (last cs)"
    by (simp only: final bl la)
  have f6: "fst (Close h c w) = None \<longrightarrow> set cs = umount c ` set ReservedMounts"
    using all by (auto simp add: cs_def)
  show ?thesis
    by (rule exI [of _ cs]) (intro conjI f1 ne f2 f3 f4 f5 f6)
qed

lemmas example_defs =
  host_ok_def host_failing_def example_future_def example_boot_def example_chroot_def
  example_system_def world0_def example_kernels_def


lemma example_NewChroot:
  "NewChroot host_ok ''/part-future//.system/'' ''abc-123'' ''/dev/sda3'' world0
     = (Inr example_chroot,
        world0\<lparr>trace := ExecRun ''chroot'' [''/part-future/.system/'', ''/bin/sh'', ''-c'', ''mount --bind / /'']
           # map (\<lambda>mount. ExecRun ''mount'' [''--bind'', mount, ''/part-future/.system/'' @ mount]) ReservedMounts\<rparr>)"
  by (simp add: example_defs NewChroot_def Execute_eq perform_def ReservedMounts_def Let_def)

text \<open>
  On the example machine \<open>Close\<close> unmounts all five reserved mounts and
  returns nil; when the unmount of \<open>/run\<close> is refused, that unmount is the
  last call made and its error is returned.
\<close>

theorem Close_ends_at_first_failure_witness:
  "fst (Close host_ok example_chroot world0) = None
   \<and> set (trace (snd (Close host_ok example_chroot world0))) = umount example_chroot ` set ReservedMounts
   \<and> fst (Close (host_failing (umount example_chroot ''/run'') (HostError ''target is busy'')) example_chroot world0)
       = Some (HostError ''target is busy'')
   \<and> last (trace (snd (Close (host_failing (umount example_chroot ''/run'') (HostError ''target is busy''))
                          example_chroot world0)))
       = umount example_chroot ''/run''"
proof -
  let ?hf = "host_failing (umount example_chroot ''/run'') (HostError ''target is busy'')"
  have ok: "Close host_ok example_chroot world0
      = (None, world0\<lparr>trace := map (umount example_chroot) [''/dev'', ''/dev/pts'', ''/proc'', ''/run'', ''/sys'']\<rparr>)"
    by (simp add: example_defs Close_def perform_def umount_def ReservedMounts_def)
  have busy: "Close ?hf example_chroot world0
      = (Some (HostError ''target is busy''),
         world0\<lparr>trace := map (umount example_chroot) [''/dev'', ''/dev/pts'', ''/proc'', ''/run'']\<rparr>)"
    by (simp add: example_defs Close_def perform_def umount_def ReservedMounts_def)
  from Close_ends_at_first_failure [of host_ok example_chroot world0]
  obtain cs where "trace (snd (Close host_ok example_chroot world0)) = trace world0 @ cs
     \<and> cs \<noteq> [] \<and> distinct cs
     \<and> set cs \<subseteq> umount example_chroot ` set ReservedMounts
     \<and> (\<forall>i. i < length cs - 1 \<longrightarrow> result host_ok (trace world0 @ take i cs) (cs ! i) = None)
     \<and> fst (Close host_ok example_chroot world0) = result host_ok (trace world0 @ butlast cs) (last cs)
     \<and> (fst (Close host_ok example_chroot world0) = None \<longrightarrow> set cs = umount example_chroot ` set ReservedMounts)" ..
  then have cs: "trace (snd (Close host_ok example_chroot world0)) = trace world0 @ cs"
    and all: "fst (Close host_ok example_chroot world0) = None \<longrightarrow> set cs = umount example_chroot ` set ReservedMounts"
    by blast+
  have nil: "fst (Close host_ok example_chroot world0) = None" by (simp only: ok fst_conv)
  with all have "set cs = umount example_chroot ` set ReservedMounts" by (rule mp)
  moreover have "trace world0 = []" by (simp add: world0_def)
  ultimately have five: "set (trace (snd (Close host_ok example_chroot world0))) = umount example_chroot ` set ReservedMounts"
    by (simp only: cs append_Nil)
  from Close_ends_at_first_failure [of ?hf example_chroot world0]
  obtain cs' where "trace (snd (Close ?hf example_chroot world0)) = trace world0 @ cs'
     \<and> cs' \<noteq> [] \<and> distinct cs'
     \<and> set cs' \<subseteq> umount example_chroot ` set ReservedMounts
     \<and> (\<forall>i. i < length cs' - 1 \<longrightarrow> result ?hf (trace world0 @ take i cs') (cs' ! i) = None)
     \<and> fst (Close ?hf example_chroot world0) = result ?hf (trace world0 @ butlast cs') (last cs')
     \<and> (fst (Close ?hf example_chroot world0) = None \<longrightarrow> set cs' = umount example_chroot ` set ReservedMounts)" ..
  then have cs': "trace (snd (Close ?hf example_chroot world0)) = trace world0 @ cs'"
    and final: "fst (Close ?hf example_chroot world0) = result ?hf (trace world0 @ butlast cs') (last cs')"
    by blast+
  from cs' [unfolded busy] have "cs' = map (umount example_chroot) [''/dev'', ''/dev/pts'', ''/proc'', ''/run'']"
    by (simp add: world0_def)
  then have "last cs' = umount example_chroot ''/run''" by simp
  with final have err: "fst (Close ?hf example_chroot world0) = Some (HostError ''target is busy'')"
    by (simp add: host_failing_def host_ok_def)
  have "last (trace (snd (Close ?hf example_chroot world0))) = umount example_chroot ''/run''"
    by (simp add: busy)
  with nil five err show ?thesis by (intro conjI)
qed

text \<open>
  Against C6 as the spec words it: when the unmount of \<open>/proc\<close> is refused,
  \<open>Close\<close> returns that error and the unmounts of \<open>/run\<close> and \<open>/sys\<close> are
  never attempted.
\<close>

theorem Close_attempts_all_counterexample:
  "fst (Close (host_failing (umount example_chroot ''/proc'') (HostError ''target is busy'')) example_chroot world0)
     = Some (HostError ''target is busy'')
   \<and> umount example_chroot ''/run''
       \<notin> set (trace (snd (Close (host_failing (umount example_chroot ''/proc'') (HostError ''target is busy''))
                                example_chroot world0)))
   \<and> umount example_chroot ''/sys''
       \<notin> set (trace (snd (Close (host_failing (umount example_chroot ''/proc'') (HostError ''target is busy''))
                                example_chroot world0)))"
  by (simp add: example_defs Close_def perform_def umount_def ReservedMounts_def)

lemma RunCleanUpQueue_eq:
  "RunCleanUpQueue h w =
     (if fst (RunCleanUpQueue_loop h (queue w) w) = Return None
      then (Return None, ResetQueue (snd (RunCleanUpQueue_loop h (queue w) w)))
      else RunCleanUpQueue_loop h (queue w) w)"
  by (cases "RunCleanUpQueue_loop h (queue w) w")
     (auto simp add: RunCleanUpQueue_def split: go.splits option.splits)

lemma ResetQueue_simps [simp]:
  "trace (ResetQueue w) = trace w" "queue (ResetQueue w) = []"
  by (simp_all add: ResetQueue_def)

lemma AddToCleanUpQueue_simps [simp]:
  "trace (AddToCleanUpQueue name values w) = trace w"
  "queue (AddToCleanUpQueue name values w) = queue w @ [\<lparr>Name = name, Values = values\<rparr>]"
  by (simp_all add: AddToCleanUpQueue_def)

section \<open>The order of the drain\<close>

text \<open>
  Claim C4, as the code has it.  \<open>AddToCleanUpQueue\<close> appends at the end of the
  queue and \<open>RunCleanUpQueue\<close> ranges over it from the front: the entries run
  in the order in which they were pushed, first in, first out.  The calls of
  a drain are an initial part of the calls of the queued entries taken in
  queue order, and all of them when the drain returns nil.
\<close>

theorem RunCleanUpQueue_first_in_first_out:
  "queue (AddToCleanUpQueue name values w) = queue w @ [\<lparr>Name = name, Values = values\<rparr>]
   \<and> (\<exists>n. trace (snd (RunCleanUpQueue h w)) = trace w @ take n (concat (map entry_calls (queue w))))
   \<and> (fst (RunCleanUpQueue h w) = Return None \<longrightarrow>
        trace (snd (RunCleanUpQueue h w)) = trace w @ concat (map entry_calls (queue w)))"
proof -
  from loop_calls [of "queue w" h w] obtain n where
    n: "trace (snd (RunCleanUpQueue_loop h (queue w) w)) = trace w @ take n (concat (map entry_calls (queue w)))"
       "fst (RunCleanUpQueue_loop h (queue w) w) = Return None \<longrightarrow> n = length (concat (map entry_calls (queue w)))"
    by auto
  have "\<exists>n. trace (snd (RunCleanUpQueue h w)) = trace w @ take n (concat (map entry_calls (queue w)))"
    using n(1) by (intro exI [of _ n]) (simp add: RunCleanUpQueue_eq)
  moreover have "fst (RunCleanUpQueue h w) = Return None \<longrightarrow>
        trace (snd (RunCleanUpQueue h w)) = trace w @ concat (map entry_calls (queue w))"
    using n by (simp add: RunCleanUpQueue_eq)
  ultimately show ?thesis by simp
qed

lemmas drain_defs =
  RunCleanUpQueue_def RunCleanUpQueue_case_def AddToCleanUpQueue_def ResetQueue_def perform_def
  two_pushed_def part_a_def part_b_def entry_calls_def

text \<open>Two unmounts pushed on the example machine run in the order pushed.\<close>

theorem RunCleanUpQueue_first_in_first_out_witness:
  "fst (RunCleanUpQueue host_ok two_pushed) = Return None
   \<and> trace (snd (RunCleanUpQueue host_ok two_pushed))
       = [PartitionUnmount (Partition part_a), PartitionUnmount (Partition part_b)]"
  using RunCleanUpQueue_first_in_first_out [of "''x''" "[]" two_pushed host_ok]
  by (simp add: drain_defs example_defs)

text \<open>
  Against C4 as the spec words it: the partition pushed first is unmounted
  first; last in, first out would unmount it last.
\<close>

theorem RunCleanUpQueue_last_in_first_out_counterexample:
  "queue two_pushed = [\<lparr>Name = ''umountFuture'', Values = [VPartition part_a]\<rparr>,
                       \<lparr>Name = ''umountFuture'', Values = [VPartition part_b]\<rparr>]
   \<and> trace (snd (RunCleanUpQueue host_ok two_pushed))
       = [PartitionUnmount (Partition part_a), PartitionUnmount (Partition part_b)]
   \<and> trace (snd (RunCleanUpQueue host_ok two_pushed))
       \<noteq> [PartitionUnmount (Partition part_b), PartitionUnmount (Partition part_a)]"
  by (simp add: drain_defs example_defs)

section \<open>A failing entry ends the drain\<close>

lemma loop_append:
  "RunCleanUpQueue_loop h pre w = (Return None, w1) \<Longrightarrow>
   RunCleanUpQueue_loop h (pre @ post) w = RunCleanUpQueue_loop h post w1"
proof (induction pre arbitrary: w)
  case Nil
  then show ?case by simp
next
  case (Cons f fs)
  obtain r1 wa where c1: "RunCleanUpQueue_case h f w = (r1, wa)"
    by (cases "RunCleanUpQueue_case h f w")
  show ?case
  proof (cases "r1 = Return None")
    case True
    with c1 Cons.prems have "RunCleanUpQueue_loop h fs wa = (Return None, w1)" by simp
    from Cons.IH [OF this] True c1 show ?thesis by simp
  next
    case False
    with c1 Cons.prems show ?thesis by (cases r1; auto split: option.splits)
  qed
qed

text \<open>
  Claim C5, as the code has it.  When the entries before \<open>f\<close> have run without
  error and \<open>f\<close> fails, \<open>RunCleanUpQueue\<close> returns the error of \<open>f\<close> and
  the world is the one that \<open>f\<close> left: no entry after \<open>f\<close> is run, and no
  error besides this first one is collected.
\<close>

theorem RunCleanUpQueue_stops_at_first_failure:
  assumes "queue w = pre @ f # post"
    and "RunCleanUpQueue_loop h pre w = (Return None, w1)"
    and "RunCleanUpQueue_case h f w1 = (Return (Some err), w2)"
  shows "RunCleanUpQueue h w = (Return (Some err), w2)"
proof -
  have "RunCleanUpQueue_loop h (queue w) w = RunCleanUpQueue_loop h (f # post) w1"
    using assms(1) loop_append [OF assms(2)] by simp
  also have "\<dots> = (Return (Some err), w2)"
    using assms(3) by simp
  finally show ?thesis by (simp add: RunCleanUpQueue_eq)
qed

text \<open>With the first of two unmounts refused, the drain returns after one call.\<close>

theorem RunCleanUpQueue_stops_at_first_failure_witness:
  "queue two_pushed = [] @ \<lparr>Name = ''umountFuture'', Values = [VPartition part_a]\<rparr>
                        # [\<lparr>Name = ''umountFuture'', Values = [VPartition part_b]\<rparr>]
   \<and> RunCleanUpQueue (host_failing (PartitionUnmount (Partition part_a)) (HostError ''target is busy'')) two_pushed
       = (Return (Some (HostError ''target is busy'')),
          two_pushed\<lparr>trace := [PartitionUnmount (Partition part_a)]\<rparr>)"
  using RunCleanUpQueue_stops_at_first_failure
    [of two_pushed "[]" "\<lparr>Name = ''umountFuture'', Values = [VPartition part_a]\<rparr>"
        "[\<lparr>Name = ''umountFuture'', Values = [VPartition part_b]\<rparr>]"
        "host_failing (PartitionUnmount (Partition part_a)) (HostError ''target is busy'')"
        two_pushed "HostError ''target is busy''"
        "two_pushed\<lparr>trace := [PartitionUnmount (Partition part_a)]\<rparr>"]
  by (simp add: drain_defs example_defs)

text \<open>
  Against C5 as the spec words it: the second entry asks for the unmount of
  the second partition, and after the failure of the first entry that call
  is never made.
\<close>

theorem RunCleanUpQueue_runs_all_counterexample:
  "RunCleanUpQueue (host_failing (PartitionUnmount (Partition part_a)) (HostError ''target is busy'')) two_pushed
       = (Return (Some (HostError ''target is busy'')),
          two_pushed\<lparr>trace := [PartitionUnmount (Partition part_a)]\<rparr>)
   \<and> PartitionUnmount (Partition part_b) \<in> set (entry_calls (queue two_pushed ! 1))
   \<and> PartitionUnmount (Partition part_b)
        \<notin> set (trace (snd (RunCleanUpQueue
             (host_failing (PartitionUnmount (Partition part_a)) (HostError ''target is busy'')) two_pushed)))"
  by (simp add: drain_defs example_defs)

lemma loop_extends:
  "\<exists>cs. trace (snd (RunCleanUpQueue_loop h q w)) = trace w @ cs"
  using loop_calls [of q h w] by auto

lemma Close_first:
  "\<exists>cs. trace (snd (Close h c w)) = trace w @ umount c ''/dev'' # cs
      \<and> (cs \<noteq> [] \<longrightarrow> result h (trace w) (umount c ''/dev'') = None)"
proof (cases "result h (trace w) (umount c ''/dev'')")
  case (Some e)
  then show ?thesis
    by (simp add: Close_def ReservedMounts_def for_range_Cons_perform del: for_range.simps)
next
  case None
  define w1 where "w1 = w\<lparr>trace := trace w @ [umount c ''/dev'']\<rparr>"
  define rest where "rest = [''/dev/pts'', ''/proc'', ''/run'', ''/sys'']"
  obtain r w' where rw: "for_range (\<lambda>mount. perform h (umount c mount)) rest w1 = (r, w')"
    by (cases "for_range (\<lambda>mount. perform h (umount c mount)) rest w1")
  from for_range_perform [OF this] obtain k where "trace w' = trace w1 @ map (umount c) (take k rest)"
    by auto
  moreover have "Close h c w = (r, w')"
    using None rw unfolding Close_def ReservedMounts_def rest_def w1_def
    by (simp add: for_range_Cons_perform [of h "umount c" "''/dev''"] del: for_range.simps)
  ultimately show ?thesis using None by (simp add: w1_def)
qed

lemma loop_first_call:
  "RunCleanUpQueue_loop h q w = (Return (Some e), w') \<Longrightarrow>
   \<exists>c cs. trace w' = trace w @ c # cs
      \<and> (cs \<noteq> [] \<longrightarrow> result h (trace w) c = None)
      \<and> (\<forall>h2 w2. \<exists>cs2. trace (snd (RunCleanUpQueue_loop h2 q w2)) = trace w2 @ c # cs2)"
proof (induction q arbitrary: w)
  case Nil
  then show ?case by simp
next
  case (Cons f fs)
  show ?case
  proof (cases f rule: entry_kinds)
    case (umount p vs)
    define c where "c = PartitionUnmount (Partition p)"
    have step: "RunCleanUpQueue_loop h2 (f # fs) w2 =
        (case result h2 (trace w2) c of
           None \<Rightarrow> RunCleanUpQueue_loop h2 fs (w2\<lparr>trace := trace w2 @ [c]\<rparr>)
         | Some err \<Rightarrow> (Return (Some err), w2\<lparr>trace := trace w2 @ [c]\<rparr>))" for h2 w2
      using umount by (simp add: case_umount c_def split: option.splits)
    have all: "\<exists>cs2. trace (snd (RunCleanUpQueue_loop h2 (f # fs) w2)) = trace w2 @ c # cs2" for h2 w2
      using loop_extends [of h2 fs "w2\<lparr>trace := trace w2 @ [c]\<rparr>"]
      by (auto simp add: step simp del: RunCleanUpQueue_loop.simps split: option.splits)
    from all [of h w] Cons.prems obtain cs where cs: "trace w' = trace w @ c # cs" by auto
    have "cs \<noteq> [] \<longrightarrow> result h (trace w) c = None"
      using Cons.prems cs by (auto simp add: step simp del: RunCleanUpQueue_loop.simps split: option.splits)
    with cs all show ?thesis by blast
  next
    case (close ch vs)
    define c where "c = umount ch ''/dev''"
    have step: "RunCleanUpQueue_loop h2 (f # fs) w2 =
        (case fst (Close h2 ch w2) of
           None \<Rightarrow> RunCleanUpQueue_loop h2 fs (snd (Close h2 ch w2))
         | Some err \<Rightarrow> (Return (Some err), snd (Close h2 ch w2)))" for h2 w2
      using close by (simp add: case_close split: option.splits)
    have all: "\<exists>cs2. trace (snd (RunCleanUpQueue_loop h2 (f # fs) w2)) = trace w2 @ c # cs2
         \<and> (cs2 \<noteq> [] \<longrightarrow> result h2 (trace w2) c = None)" for h2 w2
    proof -
      from Close_first [of h2 ch w2] obtain cs where
        cs: "trace (snd (Close h2 ch w2)) = trace w2 @ c # cs" "cs \<noteq> [] \<longrightarrow> result h2 (trace w2) c = None"
        by (auto simp add: c_def)
      show ?thesis
      proof (cases "fst (Close h2 ch w2)")
        case (Some err)
        with cs show ?thesis by (simp add: step del: RunCleanUpQueue_loop.simps)
      next
        case None
        from Close_calls [of h2 ch w2] None
        have "trace (snd (Close h2 ch w2)) = trace w2 @ map (umount ch) ReservedMounts" by auto
        with cs(1) have "cs \<noteq> []" by (auto simp add: ReservedMounts_def)
        with cs(2) have ok: "result h2 (trace w2) c = None" by simp
        from loop_extends [of h2 fs "snd (Close h2 ch w2)"] obtain more where
          "trace (snd (RunCleanUpQueue_loop h2 fs (snd (Close h2 ch w2)))) = trace (snd (Close h2 ch w2)) @ more"
          by auto
        with None cs(1) ok show ?thesis by (simp add: step del: RunCleanUpQueue_loop.simps)
      qed
    qed
    from all [of h w] Cons.prems obtain cs where
      "trace w' = trace w @ c # cs" "cs \<noteq> [] \<longrightarrow> result h (trace w) c = None" by auto
    with all show ?thesis by blast
  next
    case panic_umount
    with Cons.prems show ?thesis by (simp add: case_panic_umount)
  next
    case panic_close
    with Cons.prems show ?thesis by (simp add: case_panic_close)
  next
    case skip
    then have step: "RunCleanUpQueue_loop h2 (f # fs) w2 = RunCleanUpQueue_loop h2 fs w2" for h2 w2
      by (simp add: case_skip)
    from Cons.prems have "RunCleanUpQueue_loop h fs w = (Return (Some e), w')"
      by (simp only: step)
    from Cons.IH [OF this] show ?thesis by (simp only: step)
  qed
qed

section \<open>A failed drain leaves the queue as it was\<close>

text \<open>
  Claim C10.  When \<open>RunCleanUpQueue\<close> returns an error the queue is what it was
  before the drain, the entries that had run included.  The drain had issued
  at least one call, \<open>c\<close>, and if it got further than \<open>c\<close> then \<open>c\<close> had
  succeeded; a second drain starts over and issues \<open>c\<close> again first.  The
  queue is empty after a drain that returns nil, and a non-empty queue is
  emptied by no other drain.
\<close>

theorem failed_drain_keeps_queue:
  "(\<forall>err. fst (RunCleanUpQueue h w) = Return (Some err) \<longrightarrow>
       queue (snd (RunCleanUpQueue h w)) = queue w
     \<and> (\<exists>c cs cs'.
           trace (snd (RunCleanUpQueue h w)) = trace w @ c # cs
         \<and> (cs \<noteq> [] \<longrightarrow> result h (trace w) c = None)
         \<and> trace (snd (RunCleanUpQueue h (snd (RunCleanUpQueue h w))))
             = trace (snd (RunCleanUpQueue h w)) @ c # cs'))
   \<and> (fst (RunCleanUpQueue h w) = Return None \<longrightarrow> queue (snd (RunCleanUpQueue h w)) = [])
   \<and> (queue w \<noteq> [] \<and> queue (snd (RunCleanUpQueue h w)) = [] \<longrightarrow>
        fst (RunCleanUpQueue h w) = Return None)"
proof (intro conjI allI impI)
  fix err assume failed: "fst (RunCleanUpQueue h w) = Return (Some err)"
  define w' where "w' = snd (RunCleanUpQueue_loop h (queue w) w)"
  from failed have loop: "RunCleanUpQueue_loop h (queue w) w = (Return (Some err), w')"
    and same: "RunCleanUpQueue h w = (Return (Some err), w')"
    by (auto simp add: RunCleanUpQueue_eq w'_def split: if_splits intro: prod_eqI)
  from loop_calls [of "queue w" h w] loop have q: "queue w' = queue w" by auto
  then show "queue (snd (RunCleanUpQueue h w)) = queue w" by (simp add: same)
  from loop_first_call [OF loop] obtain c cs where c: "trace w' = trace w @ c # cs"
    "cs \<noteq> [] \<longrightarrow> result h (trace w) c = None"
    "\<And>h2 w2. \<exists>cs2. trace (snd (RunCleanUpQueue_loop h2 (queue w) w2)) = trace w2 @ c # cs2"
    by blast
  from c(3) [of h w'] obtain cs' where "trace (snd (RunCleanUpQueue_loop h (queue w) w')) = trace w' @ c # cs'"
    by blast
  then have "trace (snd (RunCleanUpQueue h w')) = trace w' @ c # cs'"
    using q by (simp add: RunCleanUpQueue_eq)
  with c(1,2) show "\<exists>c cs cs'.
           trace (snd (RunCleanUpQueue h w)) = trace w @ c # cs
         \<and> (cs \<noteq> [] \<longrightarrow> result h (trace w) c = None)
         \<and> trace (snd (RunCleanUpQueue h (snd (RunCleanUpQueue h w))))
             = trace (snd (RunCleanUpQueue h w)) @ c # cs'"
    unfolding same by (intro exI [of _ c] exI [of _ cs] exI [of _ cs']) simp
next
  assume "fst (RunCleanUpQueue h w) = Return None"
  then show "queue (snd (RunCleanUpQueue h w)) = []"
    by (simp add: RunCleanUpQueue_eq split: if_splits)
next
  assume a: "queue w \<noteq> [] \<and> queue (snd (RunCleanUpQueue h w)) = []"
  from loop_calls [of "queue w" h w] have "queue (snd (RunCleanUpQueue_loop h (queue w) w)) = queue w"
    by auto
  with a show "fst (RunCleanUpQueue h w) = Return None"
    by (auto simp add: RunCleanUpQueue_eq split: if_splits)
qed

text \<open>
  With the second of two unmounts refused, the drain fails with both entries
  still queued and a second drain repeats both calls; on the machine where
  every call succeeds the drain empties the queue.
\<close>

theorem failed_drain_keeps_queue_witness:
  "fst (RunCleanUpQueue (host_failing (PartitionUnmount (Partition part_b)) (HostError ''target is busy'')) two_pushed)
     = Return (Some (HostError ''target is busy''))
   \<and> queue (snd (RunCleanUpQueue (host_failing (PartitionUnmount (Partition part_b)) (HostError ''target is busy'')) two_pushed))
     = queue two_pushed
   \<and> trace (snd (RunCleanUpQueue (host_failing (PartitionUnmount (Partition part_b)) (HostError ''target is busy''))
        (snd (RunCleanUpQueue (host_failing (PartitionUnmount (Partition part_b)) (HostError ''target is busy'')) two_pushed))))
     = [PartitionUnmount (Partition part_a), PartitionUnmount (Partition part_b),
        PartitionUnmount (Partition part_a), PartitionUnmount (Partition part_b)]
   \<and> queue two_pushed \<noteq> []
   \<and> fst (RunCleanUpQueue host_ok two_pushed) = Return None
   \<and> queue (snd (RunCleanUpQueue host_ok two_pushed)) = []"
  using failed_drain_keeps_queue [of "host_failing (PartitionUnmount (Partition part_b)) (HostError ''target is busy'')" two_pushed]
        failed_drain_keeps_queue [of host_ok two_pushed]
  by (simp add: drain_defs example_defs)

section \<open>The atomic exchange: one rename, and only that\<close>

lemma os_Open_cases:
  "os_Open h name w =
     (if \<not> path_exists h (trace w) name
      then (Inl (PathError ''open'' name ''no such file or directory''), w\<lparr>trace := trace w @ [OsOpen name]\<rparr>)
      else case result h (trace w) (OsOpen name) of
             Some err \<Rightarrow> (Inl err, w\<lparr>trace := trace w @ [OsOpen name]\<rparr>)
           | None \<Rightarrow> (Inr (fd_of h (trace w) name), w\<lparr>trace := trace w @ [OsOpen name]\<rparr>))"
  by (simp add: os_Open_def Let_def split: option.splits)

lemma AtomicSwap_cases:
  "AtomicSwap h src dst w =
     (if \<not> path_exists h (trace w) src
      then (Some (PathError ''open'' src ''no such file or directory''), w\<lparr>trace := trace w @ [OsOpen src]\<rparr>)
      else case result h (trace w) (OsOpen src) of
         Some err \<Rightarrow> (Some err, w\<lparr>trace := trace w @ [OsOpen src]\<rparr>)
       | None \<Rightarrow>
          (if \<not> path_exists h (trace w @ [OsOpen src]) dst
           then (Some (PathError ''open'' dst ''no such file or directory''),
                 w\<lparr>trace := trace w @ [OsOpen src, OsOpen dst]\<rparr>)
           else case result h (trace w @ [OsOpen src]) (OsOpen dst) of
              Some err \<Rightarrow> (Some err, w\<lparr>trace := trace w @ [OsOpen src, OsOpen dst]\<rparr>)
            | None \<Rightarrow>
               (result h (trace w @ [OsOpen src, OsOpen dst])
                  (Renameat2 (fd_of h (trace w) src) src (fd_of h (trace w @ [OsOpen src]) dst) dst RENAME_EXCHANGE),
                w\<lparr>trace := trace w @ [OsOpen src, OsOpen dst,
                   Renameat2 (fd_of h (trace w) src) src (fd_of h (trace w @ [OsOpen src]) dst) dst RENAME_EXCHANGE]\<rparr>)))"
  by (simp add: AtomicSwap_def os_Open_cases perform_def split: option.splits)

text \<open>
  Claim C8, as the code has it.  \<open>AtomicSwap\<close> opens \<open>a\<close>, then \<open>b\<close>.  A
  path that does not exist when it is opened makes \<open>AtomicSwap\<close> return an
  error without any rename; so does any other refusal of an open, whose error
  is returned as it is.  When both opens succeed, the calls are the two opens
  and one \<open>renameat2\<close> of \<open>a\<close> and \<open>b\<close> with the flag \<open>RENAME_EXCHANGE\<close>, and
  what \<open>AtomicSwap\<close> returns is the outcome of that call.  Whatever happens,
  the only rename that \<open>AtomicSwap\<close> ever issues is that single exchange.
\<close>

theorem AtomicSwap_exchange_or_error:
  "\<exists>cs. trace (snd (AtomicSwap h a b w)) = trace w @ cs
     \<and> (\<not> path_exists h (trace w) a \<or> \<not> path_exists h (trace w @ [OsOpen a]) b \<longrightarrow>
          fst (AtomicSwap h a b w) \<noteq> None \<and> filter is_rename cs = [])
     \<and> (\<forall>err. fst (os_Open h a w) = Inl err \<longrightarrow>
          fst (AtomicSwap h a b w) = Some err \<and> cs = [OsOpen a])
     \<and> (\<forall>err. (\<exists>fa. fst (os_Open h a w) = Inr fa) \<and> fst (os_Open h b (snd (os_Open h a w))) = Inl err \<longrightarrow>
          fst (AtomicSwap h a b w) = Some err \<and> cs = [OsOpen a, OsOpen b])
     \<and> ((\<exists>fa. fst (os_Open h a w) = Inr fa) \<and> (\<exists>fb. fst (os_Open h b (snd (os_Open h a w))) = Inr fb) \<longrightarrow>
          (\<exists>fa fb. cs = [OsOpen a, OsOpen b, Renameat2 fa a fb b RENAME_EXCHANGE]
             \<and> fst (AtomicSwap h a b w) =
                 result h (trace w @ [OsOpen a, OsOpen b]) (Renameat2 fa a fb b RENAME_EXCHANGE)))
     \<and> (filter is_rename cs = [] \<or> (\<exists>fa fb. filter is_rename cs = [Renameat2 fa a fb b RENAME_EXCHANGE]))
     \<and> RENAME_EXCHANGE \<noteq> 0 \<and> RENAME_EXCHANGE \<noteq> RENAME_NOREPLACE"
proof -
  define fa where "fa = fd_of h (trace w) a"
  define fb where "fb = fd_of h (trace w @ [OsOpen a]) b"
  define w1 where "w1 = w\<lparr>trace := trace w @ [OsOpen a]\<rparr>"
  have flags: "RENAME_EXCHANGE \<noteq> 0" "RENAME_EXCHANGE \<noteq> RENAME_NOREPLACE"
    by (simp_all add: RENAME_EXCHANGE_def RENAME_NOREPLACE_def)
  have snd_a: "snd (os_Open h a w) = w1"
    by (simp add: os_Open_cases w1_def split: option.splits)
  consider
      (a_fails) err where "fst (os_Open h a w) = Inl err"
    | (b_fails) err where "fst (os_Open h a w) = Inr fa" "fst (os_Open h b w1) = Inl err"
    | (both) "fst (os_Open h a w) = Inr fa" "fst (os_Open h b w1) = Inr fb"
  proof (cases "fst (os_Open h a w)")
    case (Inl err)
    then show ?thesis by (rule a_fails)
  next
    case (Inr f)
    then have a: "fst (os_Open h a w) = Inr fa"
      by (auto simp add: os_Open_cases fa_def split: if_splits option.splits)
    show ?thesis
    proof (cases "fst (os_Open h b w1)")
      case (Inl err)
      with a show ?thesis by (rule b_fails)
    next
      case (Inr f')
      then have "fst (os_Open h b w1) = Inr fb"
        by (auto simp add: os_Open_cases fb_def w1_def split: if_splits option.splits)
      with a show ?thesis by (rule both)
    qed
  qed
  then show ?thesis
  proof cases
    case a_fails
    then have run: "AtomicSwap h a b w = (Some err, w1)"
      using snd_a by (cases "os_Open h a w") (simp add: AtomicSwap_def)
    show ?thesis
      using a_fails flags by (intro exI [of _ "[OsOpen a]"]) (simp add: run w1_def)
  next
    case b_fails
    have snd_b: "snd (os_Open h b w1) = w\<lparr>trace := trace w @ [OsOpen a, OsOpen b]\<rparr>"
      by (simp add: os_Open_cases w1_def split: option.splits)
    have run: "AtomicSwap h a b w = (Some err, w\<lparr>trace := trace w @ [OsOpen a, OsOpen b]\<rparr>)"
      using b_fails snd_a snd_b
      by (cases "os_Open h a w"; cases "os_Open h b w1") (simp add: AtomicSwap_def)
    show ?thesis
      using b_fails flags snd_a by (intro exI [of _ "[OsOpen a, OsOpen b]"]) (simp add: run)
  next
    case both
    have snd_b: "snd (os_Open h b w1) = w\<lparr>trace := trace w @ [OsOpen a, OsOpen b]\<rparr>"
      by (simp add: os_Open_cases w1_def split: option.splits)
    have run: "AtomicSwap h a b w =
        (result h (trace w @ [OsOpen a, OsOpen b]) (Renameat2 fa a fb b RENAME_EXCHANGE),
         w\<lparr>trace := trace w @ [OsOpen a, OsOpen b, Renameat2 fa a fb b RENAME_EXCHANGE]\<rparr>)"
      using both snd_a snd_b
      by (cases "os_Open h a w"; cases "os_Open h b w1") (simp add: AtomicSwap_def perform_def)
    have exist: "path_exists h (trace w) a" "path_exists h (trace w @ [OsOpen a]) b"
      using both by (auto simp add: os_Open_cases w1_def split: if_splits)
    show ?thesis
      using both flags snd_a exist
      by (intro exI [of _ "[OsOpen a, OsOpen b, Renameat2 fa a fb b RENAME_EXCHANGE]"]) (simp add: run)
  qed
qed

text \<open>
  On the example machine the exchange of two existing files is one
  \<open>renameat2\<close>; where the second file is missing, or where its open is
  refused, no rename is issued.
\<close>

theorem AtomicSwap_exchange_or_error_witness:
  "AtomicSwap host_ok ''/boot/grub.cfg'' ''/boot/grub.cfg.future'' world0
     = (None, world0\<lparr>trace := [OsOpen ''/boot/grub.cfg'', OsOpen ''/boot/grub.cfg.future'',
          Renameat2 3 ''/boot/grub.cfg'' 3 ''/boot/grub.cfg.future'' 2]\<rparr>)
   \<and> AtomicSwap (host_ok\<lparr>path_exists := (\<lambda>t name. name \<noteq> ''/boot/grub.cfg.future'')\<rparr>)
        ''/boot/grub.cfg'' ''/boot/grub.cfg.future'' world0
     = (Some (PathError ''open'' ''/boot/grub.cfg.future'' ''no such file or directory''),
        world0\<lparr>trace := [OsOpen ''/boot/grub.cfg'', OsOpen ''/boot/grub.cfg.future'']\<rparr>)
   \<and> AtomicSwap (host_failing (OsOpen ''/boot/grub.cfg.future'')
                    (PathError ''open'' ''/boot/grub.cfg.future'' ''too many open files''))
        ''/boot/grub.cfg'' ''/boot/grub.cfg.future'' world0
     = (Some (PathError ''open'' ''/boot/grub.cfg.future'' ''too many open files''),
        world0\<lparr>trace := [OsOpen ''/boot/grub.cfg'', OsOpen ''/boot/grub.cfg.future'']\<rparr>)"
  using AtomicSwap_exchange_or_error [of host_ok "''/boot/grub.cfg''" "''/boot/grub.cfg.future''" world0]
        AtomicSwap_exchange_or_error [of "host_ok\<lparr>path_exists := (\<lambda>t name. name \<noteq> ''/boot/grub.cfg.future'')\<rparr>"
           "''/boot/grub.cfg''" "''/boot/grub.cfg.future''" world0]
        AtomicSwap_exchange_or_error [of "host_failing (OsOpen ''/boot/grub.cfg.future'')
                    (PathError ''open'' ''/boot/grub.cfg.future'' ''too many open files'')"
           "''/boot/grub.cfg''" "''/boot/grub.cfg.future''" world0]
  by (simp add: example_defs AtomicSwap_cases RENAME_EXCHANGE_def)

text \<open>
  Against C8 as the spec words it: both paths exist, the open of the first is
  refused, and \<open>AtomicSwap\<close> returns that error after the one call, with no
  exchange.
\<close>

theorem AtomicSwap_refused_open_counterexample:
  "path_exists (host_failing (OsOpen ''/boot/grub.cfg'') (PathError ''open'' ''/boot/grub.cfg'' ''permission denied''))
       (trace world0) ''/boot/grub.cfg''
   \<and> path_exists (host_failing (OsOpen ''/boot/grub.cfg'') (PathError ''open'' ''/boot/grub.cfg'' ''permission denied''))
       (trace world0 @ [OsOpen ''/boot/grub.cfg'']) ''/boot/grub.cfg.future''
   \<and> AtomicSwap (host_failing (OsOpen ''/boot/grub.cfg'') (PathError ''open'' ''/boot/grub.cfg'' ''permission denied''))
        ''/boot/grub.cfg'' ''/boot/grub.cfg.future'' world0
     = (Some (PathError ''open'' ''/boot/grub.cfg'' ''permission denied''),
        world0\<lparr>trace := [OsOpen ''/boot/grub.cfg'']\<rparr>)"
  by (simp add: example_defs AtomicSwap_cases)

section \<open>Stage 0: no update\<close>

text \<open>
  Claim C7.  When the digest that the registry holds is the digest of the
  present image, \<open>Upgrade\<close> returns the error \<open>no update available\<close>.
  It has issued no call at all: nothing is mounted and nothing is written;
  only the in-memory queue was reset.  Run again from the world it left,
  it returns the same error and leaves the same world.
\<close>

theorem Upgrade_no_update:
  assumes "registry_digest h (trace w) = Digest (CurImage s)"
  shows "Upgrade h s w = (Some (ErrorsNew ''no update available''), ResetQueue w)
     \<and> trace (snd (Upgrade h s w)) = trace w
     \<and> Upgrade h s (snd (Upgrade h s w)) = Upgrade h s w"
proof -
  have first: "Upgrade h s w = (Some (ErrorsNew ''no update available''), ResetQueue w)"
    using assms by (simp add: Upgrade_def CheckUpdate_def HasUpdate_def ResetQueue_def Let_def)
  have "Upgrade h s (ResetQueue w) = (Some (ErrorsNew ''no update available''), ResetQueue w)"
    using assms by (simp add: Upgrade_def CheckUpdate_def HasUpdate_def ResetQueue_def Let_def)
  with first show ?thesis by (simp add: ResetQueue_def)
qed

theorem Upgrade_no_update_witness:
  "registry_digest host_ok (trace two_pushed) = Digest (CurImage (example_system\<lparr>CurImage := \<lparr>Digest = ''sha:B'', Image = ''ghcr.io/vanilla-os/desktop:main''\<rparr>\<rparr>))
   \<and> Upgrade host_ok (example_system\<lparr>CurImage := \<lparr>Digest = ''sha:B'', Image = ''ghcr.io/vanilla-os/desktop:main''\<rparr>\<rparr>) two_pushed
       = (Some (ErrorsNew ''no update available''), world0)"
  using Upgrade_no_update [of host_ok two_pushed "example_system\<lparr>CurImage := \<lparr>Digest = ''sha:B'', Image = ''ghcr.io/vanilla-os/desktop:main''\<rparr>\<rparr>"]
  by (simp add: example_defs two_pushed_def AddToCleanUpQueue_def ResetQueue_def)

section \<open>The bootloader recipe: the kernel line\<close>

lemma Base_nonempty: "Base path \<noteq> []"
  by (simp add: Base_def Let_def)

lemma greatest_version:
  "m \<le> foldl (\<lambda>maxVersion file. let version = Base file in
                  if version > maxVersion then version else maxVersion) m files
   \<and> foldl (\<lambda>maxVersion file. let version = Base file in
                  if version > maxVersion then version else maxVersion) m files
        \<in> insert m (set (map Base files))
   \<and> (\<forall>file\<in>set files. Base file \<le>
         foldl (\<lambda>maxVersion file. let version = Base file in
                  if version > maxVersion then version else maxVersion) m files)"
proof (induction files arbitrary: m)
  case Nil
  then show ?case by simp
next
  case (Cons f fs)
  show ?case
  proof (cases "Base f > m")
    case True
    with Cons.IH [of "Base f"] show ?thesis by (auto simp add: Let_def)
  next
    case False
    with Cons.IH [of m] show ?thesis by (auto simp add: Let_def)
  qed
qed

lemma getKernelVersion_greatest:
  assumes "Glob h (trace w) (filepath_Join [rootPath, ''boot'', ''vmlinuz-*'']) = Inr files"
    and "files \<noteq> []"
  shows "getKernelVersion h rootPath w \<in> set (map Base files)"
    and "\<forall>file\<in>set files. Base file \<le> getKernelVersion h rootPath w"
    and "getKernelVersion h rootPath w \<noteq> []"
proof -
  define v where "v = foldl (\<lambda>maxVersion file. let version = Base file in
                  if version > maxVersion then version else maxVersion) [] files"
  have v: "getKernelVersion h rootPath w = v"
    using assms by (simp add: getKernelVersion_def v_def)
  from greatest_version [of "[]" files]
  have in_set: "v \<in> insert [] (set (map Base files))" and ub: "\<forall>file\<in>set files. Base file \<le> v"
    by (simp_all add: v_def)
  from assms(2) obtain f where f: "f \<in> set files" by (cases files) auto
  with ub have "Base f \<le> v" by blast
  with Base_nonempty [of f] have ne: "v \<noteq> []" by auto
  with in_set show "getKernelVersion h rootPath w \<in> set (map Base files)" by (simp add: v)
  from ub show "\<forall>file\<in>set files. Base file \<le> getKernelVersion h rootPath w" by (simp add: v)
  from ne show "getKernelVersion h rootPath w \<noteq> []" by (simp add: v)
qed

lemma getKernelVersion_none:
  "Glob h (trace w) (filepath_Join [rootPath, ''boot'', ''vmlinuz-*'']) = Inr [] \<or>
   Glob h (trace w) (filepath_Join [rootPath, ''boot'', ''vmlinuz-*'']) = Inl e
   \<Longrightarrow> getKernelVersion h rootPath w = []"
  by (auto simp add: getKernelVersion_def)

lemma Sprintf_split:
  "pre = [] \<or> last pre \<noteq> CHR ''%'' \<Longrightarrow>
   Sprintf (pre @ rest) args = Sprintf pre args @ Sprintf rest (drop (verbs pre) args)"
  apply (induction pre args rule: Sprintf.induct)
  subgoal for c d pre args by (cases args) (auto split: if_splits)
  subgoal for args by simp
  subgoal for v args by (cases rest) auto
  done

lemma strings_Join_append:
  "xs \<noteq> [] \<Longrightarrow> ys \<noteq> [] \<Longrightarrow>
   strings_Join (xs @ ys) sep = strings_Join xs sep @ sep @ strings_Join ys sep"
proof (induction xs sep rule: strings_Join.induct)
  case (1 sep)
  then show ?case by simp
next
  case (2 x sep)
  then show ?case by (cases ys) simp_all
next
  case (3 x y ys sep)
  then show ?case by simp
qed

lemma template_split:
  "template = strings_Join (take 48 template_lines) ''\<newline>'' @ ''\<newline>''
     @ [TAB] @ ''linux   /.system/boot/vmlinuz-%s root=UUID=%s quiet splash bgrt_disable $vt_handoff''
     @ ''\<newline>'' @ [TAB] @ ''initrd  /.system/boot/initrd.img-%s''"
proof -
  have "template_lines = take 48 template_lines @ drop 48 template_lines"
    by simp
  moreover have "take 48 template_lines \<noteq> []" "drop 48 template_lines \<noteq> []"
    by (simp_all add: template_lines_def)
  ultimately have "template = strings_Join (take 48 template_lines) ''\<newline>'' @ ''\<newline>''
       @ strings_Join (drop 48 template_lines) ''\<newline>''"
    unfolding template_def using strings_Join_append by metis
  moreover have "drop 48 template_lines =
      [[TAB] @ ''linux   /.system/boot/vmlinuz-%s root=UUID=%s quiet splash bgrt_disable $vt_handoff'',
       [TAB] @ ''initrd  /.system/boot/initrd.img-%s'']"
    by (simp add: template_lines_def)
  ultimately show ?thesis by simp
qed

lemma template_head:
  "last (strings_Join (take 48 template_lines) ''\<newline>'') \<noteq> CHR ''%''
   \<and> verbs (strings_Join (take 48 template_lines) ''\<newline>'') = 2"
  by code_simp

lemma recipe_last_lines:
  "\<exists>head. Sprintf template [entryName, uuid, ver, uuid, ver] =
     head @ ''\<newline>'' @ [TAB] @ ''linux   /.system/boot/vmlinuz-'' @ ver @ '' root=UUID='' @ uuid
       @ '' quiet splash bgrt_disable $vt_handoff''
       @ ''\<newline>'' @ [TAB] @ ''initrd  /.system/boot/initrd.img-'' @ ver"
proof -
  let ?args = "[entryName, uuid, ver, uuid, ver]"
  let ?head = "strings_Join (take 48 template_lines) ''\<newline>''"
  let ?tail = "''\<newline>'' @ [TAB] @ ''linux   /.system/boot/vmlinuz-%s root=UUID=%s quiet splash bgrt_disable $vt_handoff''
       @ ''\<newline>'' @ [TAB] @ ''initrd  /.system/boot/initrd.img-%s''"
  from template_head have l: "?head = [] \<or> last ?head \<noteq> CHR ''%''" and v: "verbs ?head = 2"
    by blast+
  have "Sprintf template ?args = Sprintf (?head @ ?tail) ?args"
    by (simp only: template_split)
  also have "\<dots> = Sprintf ?head ?args @ Sprintf ?tail (drop (verbs ?head) ?args)"
    by (rule Sprintf_split [OF l])
  also have "Sprintf ?tail (drop (verbs ?head) ?args) = Sprintf ?tail [ver, uuid, ver]"
    by (simp only: v) simp
  also have "Sprintf ?tail [ver, uuid, ver] =
      ''\<newline>'' @ [TAB] @ ''linux   /.system/boot/vmlinuz-'' @ ver @ '' root=UUID='' @ uuid
       @ '' quiet splash bgrt_disable $vt_handoff''
       @ ''\<newline>'' @ [TAB] @ ''initrd  /.system/boot/initrd.img-'' @ ver"
    by (simp add: TAB_def)
  finally show ?thesis by blast
qed

text \<open>
  What \<open>generateGrubRecipe\<close> does, for every root.  When \<open>filepath.Glob\<close>
  finds kernels under the root, \<open>generateGrubRecipe\<close> creates \<open>etc/grub.d\<close>
  and writes the recipe (or returns the error of whichever of the two calls
  fails).  The text it writes ends with a \<open>linux\<close> line and an \<open>initrd\<close>
  line in which \<open>vmlinuz-\<close> and \<open>initrd.img-\<close> are followed by the base name
  of one of the files found, such that no file found has a base name that is
  greater in the byte-wise lexicographic order.  That base name is the whole
  file name, \<open>vmlinuz-\<close> included.  When \<open>filepath.Glob\<close> finds nothing, or
  fails, the function returns the error \<open>could not get kernel version\<close> and
  issues no call.
\<close>

lemma generateGrubRecipe_writes:
  "(Glob h (trace w) (filepath_Join [rootPath, ''boot'', ''vmlinuz-*'']) = Inr files \<and> files \<noteq> [] \<longrightarrow>
      (\<exists>ver head.
          ver \<in> set (map Base files) \<and> (\<forall>file\<in>set files. Base file \<le> ver)
        \<and> generateGrubRecipe h rootPath uuid entryName w =
            (case result h (trace w) (OsMkdirAll (filepath_Join [rootPath, ''etc'', ''grub.d'']) 493) of
               Some err \<Rightarrow>
                 (Some err, w\<lparr>trace := trace w @ [OsMkdirAll (filepath_Join [rootPath, ''etc'', ''grub.d'']) 493]\<rparr>)
             | None \<Rightarrow>
                 (result h (trace w @ [OsMkdirAll (filepath_Join [rootPath, ''etc'', ''grub.d'']) 493])
                    (WriteFile (filepath_Join [rootPath, ''etc'', ''grub.d'', ''10_abroot''])
                       (head @ ''\<newline>'' @ [TAB] @ ''linux   /.system/boot/vmlinuz-'' @ ver @ '' root=UUID='' @ uuid
                          @ '' quiet splash bgrt_disable $vt_handoff''
                          @ ''\<newline>'' @ [TAB] @ ''initrd  /.system/boot/initrd.img-'' @ ver)
                       420),
                  w\<lparr>trace := trace w @
                     [OsMkdirAll (filepath_Join [rootPath, ''etc'', ''grub.d'']) 493,
                      WriteFile (filepath_Join [rootPath, ''etc'', ''grub.d'', ''10_abroot''])
                        (head @ ''\<newline>'' @ [TAB] @ ''linux   /.system/boot/vmlinuz-'' @ ver @ '' root=UUID='' @ uuid
                           @ '' quiet splash bgrt_disable $vt_handoff''
                           @ ''\<newline>'' @ [TAB] @ ''initrd  /.system/boot/initrd.img-'' @ ver)
                        420]\<rparr>))))
   \<and> (Glob h (trace w) (filepath_Join [rootPath, ''boot'', ''vmlinuz-*'']) = Inr []
        \<or> (\<exists>err. Glob h (trace w) (filepath_Join [rootPath, ''boot'', ''vmlinuz-*'']) = Inl err) \<longrightarrow>
      generateGrubRecipe h rootPath uuid entryName w = (Some (ErrorsNew ''could not get kernel version''), w))"
proof (intro conjI impI)
  assume "Glob h (trace w) (filepath_Join [rootPath, ''boot'', ''vmlinuz-*'']) = Inr files \<and> files \<noteq> []"
  then have g: "Glob h (trace w) (filepath_Join [rootPath, ''boot'', ''vmlinuz-*'']) = Inr files"
    and ne: "files \<noteq> []" by simp_all
  define ver where "ver = getKernelVersion h rootPath w"
  note kv = getKernelVersion_greatest [OF g ne, folded ver_def]
  from recipe_last_lines [of entryName uuid ver] obtain head where
    head: "Sprintf template [entryName, uuid, ver, uuid, ver] =
       head @ ''\<newline>'' @ [TAB] @ ''linux   /.system/boot/vmlinuz-'' @ ver @ '' root=UUID='' @ uuid
         @ '' quiet splash bgrt_disable $vt_handoff''
         @ ''\<newline>'' @ [TAB] @ ''initrd  /.system/boot/initrd.img-'' @ ver"
    by blast
  have run: "generateGrubRecipe h rootPath uuid entryName w =
      (case result h (trace w) (OsMkdirAll (filepath_Join [rootPath, ''etc'', ''grub.d'']) 493) of
         Some err \<Rightarrow>
           (Some err, w\<lparr>trace := trace w @ [OsMkdirAll (filepath_Join [rootPath, ''etc'', ''grub.d'']) 493]\<rparr>)
       | None \<Rightarrow>
           (result h (trace w @ [OsMkdirAll (filepath_Join [rootPath, ''etc'', ''grub.d'']) 493])
              (WriteFile (filepath_Join [rootPath, ''etc'', ''grub.d'', ''10_abroot''])
                 (Sprintf template [entryName, uuid, ver, uuid, ver]) 420),
            w\<lparr>trace := trace w @
               [OsMkdirAll (filepath_Join [rootPath, ''etc'', ''grub.d'']) 493,
                WriteFile (filepath_Join [rootPath, ''etc'', ''grub.d'', ''10_abroot''])
                  (Sprintf template [entryName, uuid, ver, uuid, ver]) 420]\<rparr>))"
    using kv(3) by (simp add: generateGrubRecipe_def Let_def ver_def [symmetric] perform_def split: option.splits)
  show "\<exists>ver head.
          ver \<in> set (map Base files) \<and> (\<forall>file\<in>set files. Base file \<le> ver)
        \<and> generateGrubRecipe h rootPath uuid entryName w =
            (case result h (trace w) (OsMkdirAll (filepath_Join [rootPath, ''etc'', ''grub.d'']) 493) of
               Some err \<Rightarrow>
                 (Some err, w\<lparr>trace := trace w @ [OsMkdirAll (filepath_Join [rootPath, ''etc'', ''grub.d'']) 493]\<rparr>)
             | None \<Rightarrow>
                 (result h (trace w @ [OsMkdirAll (filepath_Join [rootPath, ''etc'', ''grub.d'']) 493])
                    (WriteFile (filepath_Join [rootPath, ''etc'', ''grub.d'', ''10_abroot''])
                       (head @ ''\<newline>'' @ [TAB] @ ''linux   /.system/boot/vmlinuz-'' @ ver @ '' root=UUID='' @ uuid
                          @ '' quiet splash bgrt_disable $vt_handoff''
                          @ ''\<newline>'' @ [TAB] @ ''initrd  /.system/boot/initrd.img-'' @ ver)
                       420),
                  w\<lparr>trace := trace w @
                     [OsMkdirAll (filepath_Join [rootPath, ''etc'', ''grub.d'']) 493,
                      WriteFile (filepath_Join [rootPath, ''etc'', ''grub.d'', ''10_abroot''])
                        (head @ ''\<newline>'' @ [TAB] @ ''linux   /.system/boot/vmlinuz-'' @ ver @ '' root=UUID='' @ uuid
                           @ '' quiet splash bgrt_disable $vt_handoff''
                           @ ''\<newline>'' @ [TAB] @ ''initrd  /.system/boot/initrd.img-'' @ ver)
                        420]\<rparr>))"
  proof (intro exI conjI)
    show "ver \<in> set (map Base files)" by (fact kv(1))
    show "\<forall>file\<in>set files. Base file \<le> ver" by (fact kv(2))
  qed (simp only: run head)
next
  assume "Glob h (trace w) (filepath_Join [rootPath, ''boot'', ''vmlinuz-*'']) = Inr []
        \<or> (\<exists>err. Glob h (trace w) (filepath_Join [rootPath, ''boot'', ''vmlinuz-*'']) = Inl err)"
  then have "getKernelVersion h rootPath w = []"
    using getKernelVersion_none [of h w rootPath] by blast
  then show "generateGrubRecipe h rootPath uuid entryName w = (Some (ErrorsNew ''could not get kernel version''), w)"
    by (simp add: generateGrubRecipe_def Let_def)
qed

lemma example_paths:
  "filepath_Join [''/part-future//.system/'', ''boot'', ''vmlinuz-*''] = ''/part-future/.system/boot/vmlinuz-*''"
  "filepath_Join [''/part-future//.system/'', ''etc'', ''grub.d''] = ''/part-future/.system/etc/grub.d''"
  "filepath_Join [''/part-future//.system/'', ''etc'', ''grub.d'', ''10_abroot''] = ''/part-future/.system/etc/grub.d/10_abroot''"
  by code_simp+

lemma example_Glob:
  "Glob host_ok t ''/part-future/.system/boot/vmlinuz-*'' = Inr example_kernels"
proof -
  have "filter (Match_star ''/part-future/.system/boot/vmlinuz-*'') example_files = example_kernels"
    by code_simp
  then show ?thesis by (simp add: host_ok_def)
qed

lemma example_getKernelVersion:
  "getKernelVersion host_ok ''/part-future//.system/'' w = ''vmlinuz-6.9.0-1''"
  by (simp add: getKernelVersion_def example_paths example_Glob example_kernels_def Base_def Let_def)

text \<open>
  Claim C3, on a root with three kernels.  The files under \<open>boot\<close> of the
  root that match \<open>vmlinuz-*\<close> are \<open>vmlinuz-6.10.0-1\<close>, \<open>vmlinuz-6.5.0-1\<close>
  and \<open>vmlinuz-6.9.0-1\<close>, and the last is the greatest byte-wise.  What
  \<open>getKernelVersion\<close> returns for it is the whole file name
  \<open>vmlinuz-6.9.0-1\<close>, not the version \<open>6.9.0-1\<close>; the template adds
  \<open>vmlinuz-\<close> and \<open>initrd.img-\<close> itself.  So the recipe written ends with
  the lines \<open>linux /.system/boot/vmlinuz-vmlinuz-6.9.0-1 root=UUID=abc-123
  quiet splash bgrt_disable $vt_handoff\<close> and \<open>initrd
  /.system/boot/initrd.img-vmlinuz-6.9.0-1\<close>, where the claim's line names
  the kernel \<open>/.system/boot/vmlinuz-6.9.0-1\<close>.
\<close>

theorem generateGrubRecipe_repeats_vmlinuz:
  "Glob host_ok (trace world0) (filepath_Join [''/part-future//.system/'', ''boot'', ''vmlinuz-*''])
     = Inr [''/part-future/.system/boot/vmlinuz-6.10.0-1'',
            ''/part-future/.system/boot/vmlinuz-6.5.0-1'',
            ''/part-future/.system/boot/vmlinuz-6.9.0-1'']
   \<and> getKernelVersion host_ok ''/part-future//.system/'' world0 = ''vmlinuz-6.9.0-1''
   \<and> (\<exists>head. generateGrubRecipe host_ok ''/part-future//.system/'' ''abc-123'' ''future'' world0 =
         (None, world0\<lparr>trace :=
            [OsMkdirAll ''/part-future/.system/etc/grub.d'' 493,
             WriteFile ''/part-future/.system/etc/grub.d/10_abroot''
               (head @ ''\<newline>'' @ [TAB] @ ''linux   /.system/boot/vmlinuz-vmlinuz-6.9.0-1 root=UUID=abc-123 quiet splash bgrt_disable $vt_handoff''
                  @ ''\<newline>'' @ [TAB] @ ''initrd  /.system/boot/initrd.img-vmlinuz-6.9.0-1'')
               420]\<rparr>))"
proof -
  have g: "Glob host_ok (trace world0) (filepath_Join [''/part-future//.system/'', ''boot'', ''vmlinuz-*'']) = Inr example_kernels"
    by (simp add: example_paths example_Glob)
  have ne: "example_kernels \<noteq> []" by (simp add: example_kernels_def)
  have ver: "getKernelVersion host_ok ''/part-future//.system/'' world0 = ''vmlinuz-6.9.0-1''"
    by (rule example_getKernelVersion)
  from recipe_last_lines [of "''future''" "''abc-123''" "''vmlinuz-6.9.0-1''"] obtain head where
    head: "Sprintf template [''future'', ''abc-123'', ''vmlinuz-6.9.0-1'', ''abc-123'', ''vmlinuz-6.9.0-1''] =
       head @ ''\<newline>'' @ [TAB] @ ''linux   /.system/boot/vmlinuz-'' @ ''vmlinuz-6.9.0-1'' @ '' root=UUID='' @ ''abc-123''
         @ '' quiet splash bgrt_disable $vt_handoff''
         @ ''\<newline>'' @ [TAB] @ ''initrd  /.system/boot/initrd.img-'' @ ''vmlinuz-6.9.0-1''"
    by blast
  have run: "generateGrubRecipe host_ok ''/part-future//.system/'' ''abc-123'' ''future'' world0 =
      (None, world0\<lparr>trace :=
         [OsMkdirAll ''/part-future/.system/etc/grub.d'' 493,
          WriteFile ''/part-future/.system/etc/grub.d/10_abroot''
            (Sprintf template [''future'', ''abc-123'', ''vmlinuz-6.9.0-1'', ''abc-123'', ''vmlinuz-6.9.0-1'']) 420]\<rparr>)"
    unfolding generateGrubRecipe_def ver example_paths
    by (simp add: Let_def perform_def host_ok_def world0_def)
  have "\<exists>head. generateGrubRecipe host_ok ''/part-future//.system/'' ''abc-123'' ''future'' world0 =
         (None, world0\<lparr>trace :=
            [OsMkdirAll ''/part-future/.system/etc/grub.d'' 493,
             WriteFile ''/part-future/.system/etc/grub.d/10_abroot''
               (head @ ''\<newline>'' @ [TAB] @ ''linux   /.system/boot/vmlinuz-vmlinuz-6.9.0-1 root=UUID=abc-123 quiet splash bgrt_disable $vt_handoff''
                  @ ''\<newline>'' @ [TAB] @ ''initrd  /.system/boot/initrd.img-vmlinuz-6.9.0-1'')
               420]\<rparr>)"
    by (intro exI [of _ head]) (simp add: run head)
  with g ver show ?thesis by (simp add: example_kernels_def)
qed

section \<open>What each stage does to the queue and to the trace\<close>

lemma quiet_refl [simp]: "quiet w w"
  by (simp add: quiet_def)

lemma quiet_trans: "quiet w w1 \<Longrightarrow> quiet w1 w2 \<Longrightarrow> quiet w w2"
  by (auto simp add: quiet_def)

lemma quiet_queue_update [simp]:
  "quiet w (ResetQueue w)" "quiet w (AddToCleanUpQueue name values w)"
  by (simp_all add: quiet_def)

lemma perform_frame:
  "\<not> is_release c \<Longrightarrow> perform h c w = (r, w') \<Longrightarrow> quiet w w' \<and> queue w' = queue w"
  by (auto simp add: perform_def quiet_def)

lemma for_range_frame:
  assumes "\<And>x. \<not> is_release (g x)"
    and "for_range (\<lambda>x. perform h (g x)) xs w = (r, w')"
  shows "quiet w w' \<and> queue w' = queue w"
proof -
  from for_range_perform [OF assms(2)] obtain k where
    "trace w' = trace w @ map g (take k xs)" "queue w' = queue w" by auto
  moreover have "filter is_release (map g (take k xs)) = []"
    using assms(1) by (simp add: filter_empty_conv)
  ultimately show ?thesis by (auto simp add: quiet_def)
qed

lemma AtomicSwap_frame:
  "AtomicSwap h a b w = (r, w') \<Longrightarrow> quiet w w' \<and> queue w' = queue w"
  by (auto simp add: AtomicSwap_cases quiet_def split: if_splits option.splits)

lemma generateGrubRecipe_frame:
  "generateGrubRecipe h rootPath uuid entryName w = (r, w') \<Longrightarrow> quiet w w' \<and> queue w' = queue w"
  by (auto simp add: generateGrubRecipe_def Let_def perform_def quiet_def split: if_splits option.splits)

lemma Execute_perform:
  "Execute h c cmd args = perform h (ExecRun ''chroot'' [root c, ''/bin/sh'', ''-c'', strings_Join (cmd # args) '' ''])"
  by (simp add: Execute_def Let_def fun_eq_iff)

lemma ExecuteCmds_frame:
  "ExecuteCmds h c cmds w = (r, w') \<Longrightarrow> quiet w w' \<and> queue w' = queue w"
  unfolding ExecuteCmds_def Execute_perform
  by (rule for_range_frame [where g = "\<lambda>cmd. ExecRun ''chroot'' [root c, ''/bin/sh'', ''-c'', strings_Join [cmd] '' '']"]) simp_all

lemma SyncEtc_frame:
  "SyncEtc h systemEtc w = (r, w') \<Longrightarrow> quiet w w' \<and> queue w' = queue w"
  unfolding SyncEtc_def Let_def
  by (rule for_range_frame [where g = "\<lambda>file. MergeDiff (''/var/lib/abroot/etc/'' @ file) (systemEtc @ ''/'' @ file)"]) simp_all

lemma Partition_Mount_frame:
  "Partition_Mount h p destination w = (r, p', w') \<Longrightarrow>
   quiet w w' \<and> queue w' = queue w \<and> (r = None \<longrightarrow> p' = p\<lparr>MountPoint := destination\<rparr>)"
  by (auto simp add: Partition_Mount_def perform_def quiet_def split: option.splits)

lemma NewChroot_frame:
  assumes "NewChroot h r u d w = (res, w')"
  shows "quiet w w' \<and> queue w' = queue w"
proof -
  define r' where "r' = ReplaceAll_slashes r"
  define c' where "c' = \<lparr>root = r', rootUuid = u, rootDevice = d\<rparr>"
  define w1 where "w1 = w\<lparr>trace := trace w @ [ExecRun ''chroot'' [r', ''/bin/sh'', ''-c'', ''mount --bind / /'']]\<rparr>"
  define L where "L = for_range (\<lambda>mount. perform h (ExecRun ''mount'' [''--bind'', mount, r' @ mount])) ReservedMounts w1"
  have ex: "Execute h c' ''mount'' [''--bind'', ''/'', ''/''] w
        = (result h (trace w) (ExecRun ''chroot'' [r', ''/bin/sh'', ''-c'', ''mount --bind / /'']), w1)"
    by (simp add: Execute_eq c'_def w1_def)
  have eq: "NewChroot h r u d w =
      (if \<not> path_exists h (trace w) r' then (Inl (PathError ''stat'' r' ''no such file or directory''), w)
       else case result h (trace w) (ExecRun ''chroot'' [r', ''/bin/sh'', ''-c'', ''mount --bind / /'']) of
              Some err \<Rightarrow> (Inl err, w1)
            | None \<Rightarrow> (case L of (Some err, w2) \<Rightarrow> (Inl err, w2) | (None, w2) \<Rightarrow> (Inr c', w2)))"
    unfolding NewChroot_def Let_def r'_def [symmetric] c'_def [symmetric] ex L_def
    by (simp split: option.splits)
  obtain rl wl where L: "L = (rl, wl)" by (cases L)
  have q1: "quiet w w1 \<and> queue w1 = queue w"
    by (simp add: w1_def quiet_def)
  have ql: "quiet w1 wl \<and> queue wl = queue w1"
    using L unfolding L_def
    by (rule for_range_frame [where g = "\<lambda>mount. ExecRun ''mount'' [''--bind'', mount, r' @ mount]", rotated]) simp
  have "w' = w \<or> w' = w1 \<or> w' = wl"
    using assms eq L by (auto split: if_splits option.splits)
  with q1 ql show ?thesis by (auto intro: quiet_trans)
qed

lemma S1_frame:
  assumes "Upgrade_S1 h w = (r, w')"
  shows "quiet w w' \<and>
     (case r of
        Inl err \<Rightarrow> queue w' = queue w
      | Inr (partFuture, partBoot) \<Rightarrow>
          queue w' = queue w @ [\<lparr>Name = ''umountFuture'', Values = [VPartition partFuture]\<rparr>])"
proof (cases "GetFuture h (trace w)")
  case (Inl e)
  with assms show ?thesis by (auto simp add: Upgrade_S1_def)
next
  case future: (Inr partFuture)
  show ?thesis
  proof (cases "GetBoot h (trace w)")
    case (Inl e)
    with assms future show ?thesis by (auto simp add: Upgrade_S1_def)
  next
    case boot: (Inr partBoot)
    obtain rm p wm where m: "Partition_Mount h (Partition partFuture) ''/part-future/'' w = (rm, p, wm)"
      by (cases "Partition_Mount h (Partition partFuture) ''/part-future/'' w") auto
    from Partition_Mount_frame [OF m] have f: "quiet w wm" "queue wm = queue w" by simp_all
    show ?thesis
    proof (cases rm)
      case (Some e)
      with assms future boot m f show ?thesis by (auto simp add: Upgrade_S1_def)
    next
      case None
      with assms future boot m have "r = Inr (partFuture\<lparr>Partition := p\<rparr>, partBoot)"
        and "w' = AddToCleanUpQueue ''umountFuture'' [VPartition (partFuture\<lparr>Partition := p\<rparr>)] wm"
        by (simp_all add: Upgrade_S1_def Let_def)
      with f show ?thesis by (auto simp add: quiet_def)
    qed
  qed
qed

lemma S2_frame:
  "Upgrade_S2 h w = (r, w') \<Longrightarrow> quiet w w' \<and> queue w' = queue w"
  by (auto simp add: Upgrade_S2_def Let_def perform_def quiet_def split: option.splits)

lemma S4_frame:
  "Upgrade_S4 h fullImageName containerFile partFuture w = (r, w') \<Longrightarrow> quiet w w' \<and> queue w' = queue w"
  unfolding Upgrade_S4_def by (rule perform_frame [rotated], assumption, simp)

lemma S5_frame:
  "Upgrade_S5 h fullImageName podmanImage partFuture w = (r, w') \<Longrightarrow> quiet w w' \<and> queue w' = queue w"
  unfolding Upgrade_S5_def Let_def by (rule perform_frame [rotated], assumption, simp)

lemma S6_frame:
  assumes "Upgrade_S6 h partFuture w = (r, w')"
  shows "quiet w w' \<and> queue w' = queue w"
proof -
  obtain r1 w1 where a: "AtomicSwap h (MountPoint (Partition partFuture) @ ''/.system/'')
                        (MountPoint (Partition partFuture) @ ''/.system.new/'') w = (r1, w1)"
    by (cases "AtomicSwap h (MountPoint (Partition partFuture) @ ''/.system/'')
                        (MountPoint (Partition partFuture) @ ''/.system.new/'') w")
  note f1 = AtomicSwap_frame [OF a]
  show ?thesis
  proof (cases r1)
    case (Some e)
    with assms a f1 show ?thesis by (auto simp add: Upgrade_S6_def)
  next
    case None
    with assms a have "AtomicSwap h (MountPoint (Partition partFuture) @ ''/abimage.abr'')
        (MountPoint (Partition partFuture) @ ''/abimage-new.abr'') w1 = (r, w')"
      by (simp add: Upgrade_S6_def Let_def)
    from AtomicSwap_frame [OF this] f1 show ?thesis by (auto intro: quiet_trans)
  qed
qed

lemma S7_frame:
  assumes "Upgrade_S7 h partFuture w = (r, w')"
  shows "quiet w w' \<and>
     (queue w' = queue w \<and> r \<noteq> None
      \<or> (\<exists>chroot. queue w' = queue w @ [\<lparr>Name = ''closeChroot'', Values = [VChroot chroot]\<rparr>]))"
proof -
  obtain r1 w1 where g: "generateGrubRecipe h (MountPoint (Partition partFuture) @ ''/.system/'')
             (Uuid (Partition partFuture)) (IdentifiedAs partFuture) w = (r1, w1)"
    by (cases "generateGrubRecipe h (MountPoint (Partition partFuture) @ ''/.system/'')
             (Uuid (Partition partFuture)) (IdentifiedAs partFuture) w")
  note f1 = generateGrubRecipe_frame [OF g]
  show ?thesis
  proof (cases r1)
    case (Some e)
    with assms g f1 show ?thesis by (auto simp add: Upgrade_S7_def)
  next
    case None
    obtain r2 w2 where n: "NewChroot h (MountPoint (Partition partFuture) @ ''/.system/'')
                  (Uuid (Partition partFuture)) (Device (Partition partFuture)) w1 = (r2, w2)"
      by (cases "NewChroot h (MountPoint (Partition partFuture) @ ''/.system/'')
                  (Uuid (Partition partFuture)) (Device (Partition partFuture)) w1")
    note f2 = NewChroot_frame [OF n]
    show ?thesis
    proof (cases r2)
      case (Inl e)
      with assms g None n f1 f2 show ?thesis by (auto simp add: Upgrade_S7_def intro: quiet_trans)
    next
      case (Inr chroot)
      with assms g None n have "ExecuteCmds h chroot [''grub-mkconfig -o /boot/grub/grub.cfg'', ''exit'']
                 (AddToCleanUpQueue ''closeChroot'' [VChroot chroot] w2) = (r, w')"
        by (simp add: Upgrade_S7_def)
      from ExecuteCmds_frame [OF this] have "quiet (AddToCleanUpQueue ''closeChroot'' [VChroot chroot] w2) w'"
        and "queue w' = queue w2 @ [\<lparr>Name = ''closeChroot'', Values = [VChroot chroot]\<rparr>]"
        by simp_all
      with f1 f2 show ?thesis
        by (auto intro: quiet_trans [OF _ quiet_trans [OF _ quiet_trans [OF quiet_queue_update(2)]]])
    qed
  qed
qed

lemma S8_frame:
  "Upgrade_S8 h partFuture w = (r, w') \<Longrightarrow> quiet w w' \<and> queue w' = queue w"
  unfolding Upgrade_S8_def by (rule SyncEtc_frame)

lemma S9_frame:
  assumes "Upgrade_S9 h partBoot w = (r, w')"
  shows "quiet w w' \<and> queue w' = queue w"
proof -
  define uuid where "uuid = uuid_New h (trace w)"
  obtain r1 w1 where m: "perform h (OsMkdir (''/tmp/'' @ uuid) 493) w = (r1, w1)"
    by (cases "perform h (OsMkdir (''/tmp/'' @ uuid) 493) w")
  have f1: "quiet w w1 \<and> queue w1 = queue w"
    by (rule perform_frame [OF _ m]) simp
  show ?thesis
  proof (cases r1)
    case (Some e)
    with assms m f1 show ?thesis by (auto simp add: Upgrade_S9_def Let_def uuid_def)
  next
    case None
    obtain r2 p w2 where pm: "Partition_Mount h partBoot (''/tmp/'' @ uuid) w1 = (r2, p, w2)"
      by (cases "Partition_Mount h partBoot (''/tmp/'' @ uuid) w1") auto
    from Partition_Mount_frame [OF pm] have f2: "quiet w1 w2" "queue w2 = queue w1" by simp_all
    from assms m None pm have "w' = w2"
      by (cases r2) (simp_all add: Upgrade_S9_def Let_def uuid_def)
    with f1 f2 show ?thesis by (auto intro: quiet_trans)
  qed
qed

lemma S10_frame:
  "Upgrade_S10 h uuid w = (r, w') \<Longrightarrow> quiet w w' \<and> queue w' = queue w"
  unfolding Upgrade_S10_def by (rule AtomicSwap_frame)

lemma keeps_seq:
  assumes "\<And>r w'. stage = (r, w') \<Longrightarrow> quiet w w' \<and> queue w' = queue w"
    and "\<And>w'. stage = (None, w') \<Longrightarrow> keeps w' (k w')"
  shows "keeps w (case stage of (Some err, w') \<Rightarrow> (Some err, w') | (None, w') \<Rightarrow> k w')"
proof (cases stage)
  case (Pair r w')
  show ?thesis
  proof (cases r)
    case None
    with Pair assms(1) [of r w'] assms(2) [of w'] show ?thesis
      by (auto simp add: keeps_def intro: quiet_trans)
  next
    case (Some e)
    with Pair assms(1) [of r w'] show ?thesis by (simp add: keeps_def)
  qed
qed

lemma keeps_seq_sum:
  assumes "\<And>r w'. stage = (r, w') \<Longrightarrow> quiet w w' \<and> queue w' = queue w"
    and "\<And>v w'. stage = (Inr v, w') \<Longrightarrow> keeps w' (k v w')"
  shows "keeps w (case stage of (Inl err, w') \<Rightarrow> (Some err, w') | (Inr v, w') \<Rightarrow> k v w')"
proof (cases stage)
  case (Pair r w')
  show ?thesis
  proof (cases r)
    case (Inr v)
    with Pair assms(1) [of r w'] assms(2) [of v w'] show ?thesis
      by (auto simp add: keeps_def intro: quiet_trans)
  next
    case (Inl e)
    with Pair assms(1) [of r w'] show ?thesis by (simp add: keeps_def)
  qed
qed

lemma keeps_or_opens_seq:
  assumes "\<And>r w'. stage = (r, w') \<Longrightarrow> quiet w w' \<and> queue w' = queue w"
    and "\<And>w'. stage = (None, w') \<Longrightarrow> keeps_or_opens w' (k w')"
  shows "keeps_or_opens w (case stage of (Some err, w') \<Rightarrow> (Some err, w') | (None, w') \<Rightarrow> k w')"
proof (cases stage)
  case (Pair r w')
  show ?thesis
  proof (cases r)
    case None
    with Pair assms(1) [of r w'] assms(2) [of w'] show ?thesis
      by (auto simp add: keeps_or_opens_def intro: quiet_trans)
  next
    case (Some e)
    with Pair assms(1) [of r w'] show ?thesis by (simp add: keeps_or_opens_def)
  qed
qed

lemma keeps_or_opens_seq_sum:
  assumes "\<And>r w'. stage = (r, w') \<Longrightarrow> quiet w w' \<and> queue w' = queue w"
    and "\<And>a b w'. stage = (Inr (a, b), w') \<Longrightarrow> keeps_or_opens w' (k a b w')"
  shows "keeps_or_opens w (case stage of (Inl err, w') \<Rightarrow> (Some err, w') | (Inr (a, b), w') \<Rightarrow> k a b w')"
proof (cases stage)
  case (Pair r w')
  show ?thesis
  proof (cases r)
    case (Inr v)
    obtain a b where "v = (a, b)" by (cases v)
    with Inr Pair assms(1) [of r w'] assms(2) [of a b w'] show ?thesis
      by (auto simp add: keeps_or_opens_def intro: quiet_trans)
  next
    case (Inl e)
    with Pair assms(1) [of r w'] show ?thesis by (simp add: keeps_or_opens_def)
  qed
qed

lemma keeps_or_opens_S7:
  assumes "\<And>r w'. stage = (r, w') \<Longrightarrow> quiet w w' \<and>
     (queue w' = queue w \<and> r \<noteq> None
      \<or> (\<exists>chroot. queue w' = queue w @ [\<lparr>Name = ''closeChroot'', Values = [VChroot chroot]\<rparr>]))"
    and "\<And>w'. stage = (None, w') \<Longrightarrow> keeps w' (k w')"
  shows "keeps_or_opens w (case stage of (Some err, w') \<Rightarrow> (Some err, w') | (None, w') \<Rightarrow> k w')"
proof (cases stage)
  case (Pair r w')
  show ?thesis
  proof (cases r)
    case None
    with Pair assms(1) [of r w'] assms(2) [of w'] show ?thesis
      by (auto simp add: keeps_or_opens_def keeps_def intro: quiet_trans)
  next
    case (Some e)
    with Pair assms(1) [of r w'] show ?thesis by (auto simp add: keeps_or_opens_def)
  qed
qed

lemma Upgrade_after_S1:
  assumes "CheckUpdate h s (ResetQueue w)"
    and "Upgrade_S1 h (ResetQueue w) = (Inr (partFuture, partBoot), w1)"
  shows "keeps_or_opens w1 (Upgrade h s w)"
  unfolding Upgrade_def Let_def
  apply (simp only: assms if_True if_False not_True_eq_False not_False_eq_True prod.case sum.case)
  apply (rule keeps_or_opens_seq_sum, erule S2_frame)
  apply (rule keeps_or_opens_seq, erule S4_frame)
  apply (rule keeps_or_opens_seq, erule S5_frame)
  apply (rule keeps_or_opens_seq, erule S6_frame)
  apply (rule keeps_or_opens_S7, erule S7_frame)
  apply (rule keeps_seq, erule S8_frame)
  apply (rule keeps_seq_sum, erule S9_frame)
  apply (rule keeps_seq, erule S10_frame)
  apply (simp add: keeps_def)
  done

section \<open>Upgrade returns with the queue undrained\<close>

lemma Upgrade_undrained_core:
  "(\<exists>cs. trace (snd (Upgrade h s w)) = trace w @ cs \<and> filter is_release cs = [])
   \<and> (queue (snd (Upgrade h s w)) = []
      \<or> (\<exists>partFuture. queue (snd (Upgrade h s w)) =
            [\<lparr>Name = ''umountFuture'', Values = [VPartition partFuture]\<rparr>])
      \<or> (\<exists>partFuture chroot. queue (snd (Upgrade h s w)) =
            [\<lparr>Name = ''umountFuture'', Values = [VPartition partFuture]\<rparr>,
             \<lparr>Name = ''closeChroot'', Values = [VChroot chroot]\<rparr>]))
   \<and> (fst (Upgrade h s w) = None \<longrightarrow>
        (\<exists>partFuture chroot. queue (snd (Upgrade h s w)) =
            [\<lparr>Name = ''umountFuture'', Values = [VPartition partFuture]\<rparr>,
             \<lparr>Name = ''closeChroot'', Values = [VChroot chroot]\<rparr>]))
   \<and> (\<forall>partFuture partBoot w1.
        CheckUpdate h s (ResetQueue w) \<and> Upgrade_S1 h (ResetQueue w) = (Inr (partFuture, partBoot), w1) \<longrightarrow>
        (\<exists>later. queue (snd (Upgrade h s w)) =
            \<lparr>Name = ''umountFuture'', Values = [VPartition partFuture]\<rparr> # later))"
proof (cases "CheckUpdate h s (ResetQueue w)")
  case False
  then have "Upgrade h s w = (Some (ErrorsNew ''no update available''), ResetQueue w)"
    by (simp add: Upgrade_def Let_def)
  with False show ?thesis by simp
next
  case True
  obtain r1 w1 where s1: "Upgrade_S1 h (ResetQueue w) = (r1, w1)"
    by (cases "Upgrade_S1 h (ResetQueue w)")
  note f1 = S1_frame [OF s1]
  show ?thesis
  proof (cases r1)
    case (Inl e)
    with True s1 have "Upgrade h s w = (Some e, w1)"
      by (simp add: Upgrade_def Let_def)
    with Inl s1 f1 show ?thesis by (auto simp add: quiet_def)
  next
    case (Inr v)
    obtain pf pb where v: "v = (pf, pb)" by (cases v)
    from Inr v s1 have s1': "Upgrade_S1 h (ResetQueue w) = (Inr (pf, pb), w1)" by simp
    from f1 Inr v have q1: "quiet (ResetQueue w) w1"
      and queue1: "queue w1 = [\<lparr>Name = ''umountFuture'', Values = [VPartition pf]\<rparr>]" by simp_all
    from Upgrade_after_S1 [OF True s1'] have
      q: "quiet w1 (snd (Upgrade h s w))" and
      shape: "queue (snd (Upgrade h s w)) = queue w1 \<and> fst (Upgrade h s w) \<noteq> None
        \<or> (\<exists>chroot. queue (snd (Upgrade h s w)) = queue w1 @ [\<lparr>Name = ''closeChroot'', Values = [VChroot chroot]\<rparr>])"
      by (simp_all add: keeps_or_opens_def)
    from q1 q have "quiet (ResetQueue w) (snd (Upgrade h s w))" by (rule quiet_trans)
    then have 1: "\<exists>cs. trace (snd (Upgrade h s w)) = trace w @ cs \<and> filter is_release cs = []"
      by (simp add: quiet_def)
    from shape queue1 s1' 1 show ?thesis by auto
  qed
qed

lemma Upgrade_after_NewChroot:
  assumes "CheckUpdate h s (ResetQueue w)"
    and "Upgrade_S1 h (ResetQueue w) = (Inr (partFuture, partBoot), w1)"
    and "Upgrade_S2 h w1 = (Inr (fullImageName, podmanImage), w2)"
    and "Upgrade_S4 h fullImageName (Upgrade_S3 h fullImageName w2) partFuture w2 = (None, w4)"
    and "Upgrade_S5 h fullImageName podmanImage partFuture w4 = (None, w5)"
    and "Upgrade_S6 h partFuture w5 = (None, w6)"
    and "generateGrubRecipe h (MountPoint (Partition partFuture) @ ''/.system/'')
           (Uuid (Partition partFuture)) (IdentifiedAs partFuture) w6 = (None, wg)"
    and "NewChroot h (MountPoint (Partition partFuture) @ ''/.system/'')
           (Uuid (Partition partFuture)) (Device (Partition partFuture)) wg = (Inr chroot, wn)"
  shows "queue (snd (Upgrade h s w)) =
     [\<lparr>Name = ''umountFuture'', Values = [VPartition partFuture]\<rparr>,
      \<lparr>Name = ''closeChroot'', Values = [VChroot chroot]\<rparr>]"
proof -
  from S1_frame [OF assms(2)] have "queue w1 = [\<lparr>Name = ''umountFuture'', Values = [VPartition partFuture]\<rparr>]"
    by simp
  with S2_frame [OF assms(3)] S4_frame [OF assms(4)] S5_frame [OF assms(5)] S6_frame [OF assms(6)]
    generateGrubRecipe_frame [OF assms(7)] NewChroot_frame [OF assms(8)]
  have qn: "queue wn = [\<lparr>Name = ''umountFuture'', Values = [VPartition partFuture]\<rparr>]"
    by simp
  obtain r7 w7 where s7: "Upgrade_S7 h partFuture w6 = (r7, w7)"
    by (cases "Upgrade_S7 h partFuture w6")
  then have "ExecuteCmds h chroot [''grub-mkconfig -o /boot/grub/grub.cfg'', ''exit'']
          (AddToCleanUpQueue ''closeChroot'' [VChroot chroot] wn) = (r7, w7)"
    using assms(7,8) by (simp add: Upgrade_S7_def)
  from ExecuteCmds_frame [OF this] qn
  have q7: "queue w7 = [\<lparr>Name = ''umountFuture'', Values = [VPartition partFuture]\<rparr>,
      \<lparr>Name = ''closeChroot'', Values = [VChroot chroot]\<rparr>]"
    by simp
  show ?thesis
  proof (cases r7)
    case (Some e)
    have "Upgrade h s w = (Some e, w7)"
      unfolding Upgrade_def Let_def
      by (simp only: assms(1-6) s7 Some if_True if_False not_True_eq_False not_False_eq_True
            prod.case sum.case option.case)
    with q7 show ?thesis by simp
  next
    case None
    have "keeps w7 (Upgrade h s w)"
      unfolding Upgrade_def Let_def
      apply (simp only: assms(1-6) s7 None if_True if_False not_True_eq_False not_False_eq_True
            prod.case sum.case option.case)
      apply (rule keeps_seq, erule S8_frame)
      apply (rule keeps_seq_sum, erule S9_frame)
      apply (rule keeps_seq, erule S10_frame)
      apply (simp add: keeps_def)
      done
    with q7 show ?thesis by (simp add: keeps_def)
  qed
qed

text \<open>
  Claim C1, as the code has it.  \<open>Upgrade\<close> never runs the cleanup queue.
  On every return path the calls it has made release nothing (no partition
  unmount, no \<open>umount\<close>), and the queue it leaves is empty, or holds the
  \<open>umountFuture\<close> entry, or holds that entry and the \<open>closeChroot\<close> entry.
  After a successful run both entries are still queued.  Once stage 1 has
  mounted the future partition its \<open>umountFuture\<close> entry heads the queue at
  return, and once stage 7 has opened the chroot session its \<open>closeChroot\<close>
  entry follows, whatever happened later.  The drain is left to a later call
  of \<open>RunCleanUpQueue\<close>.
\<close>

theorem Upgrade_returns_undrained:
  "(\<exists>cs. trace (snd (Upgrade h s w)) = trace w @ cs \<and> filter is_release cs = [])
   \<and> (queue (snd (Upgrade h s w)) = []
      \<or> (\<exists>partFuture. queue (snd (Upgrade h s w)) =
            [\<lparr>Name = ''umountFuture'', Values = [VPartition partFuture]\<rparr>])
      \<or> (\<exists>partFuture chroot. queue (snd (Upgrade h s w)) =
            [\<lparr>Name = ''umountFuture'', Values = [VPartition partFuture]\<rparr>,
             \<lparr>Name = ''closeChroot'', Values = [VChroot chroot]\<rparr>]))
   \<and> (fst (Upgrade h s w) = None \<longrightarrow>
        (\<exists>partFuture chroot. queue (snd (Upgrade h s w)) =
            [\<lparr>Name = ''umountFuture'', Values = [VPartition partFuture]\<rparr>,
             \<lparr>Name = ''closeChroot'', Values = [VChroot chroot]\<rparr>]))
   \<and> (\<forall>partFuture partBoot w1.
        CheckUpdate h s (ResetQueue w) \<and> Upgrade_S1 h (ResetQueue w) = (Inr (partFuture, partBoot), w1) \<longrightarrow>
        (\<exists>later. queue (snd (Upgrade h s w)) =
            \<lparr>Name = ''umountFuture'', Values = [VPartition partFuture]\<rparr> # later))
   \<and> (\<forall>partFuture partBoot w1 fullImageName podmanImage w2 w4 w5 w6 wg chroot wn.
        CheckUpdate h s (ResetQueue w)
        \<and> Upgrade_S1 h (ResetQueue w) = (Inr (partFuture, partBoot), w1)
        \<and> Upgrade_S2 h w1 = (Inr (fullImageName, podmanImage), w2)
        \<and> Upgrade_S4 h fullImageName (Upgrade_S3 h fullImageName w2) partFuture w2 = (None, w4)
        \<and> Upgrade_S5 h fullImageName podmanImage partFuture w4 = (None, w5)
        \<and> Upgrade_S6 h partFuture w5 = (None, w6)
        \<and> generateGrubRecipe h (MountPoint (Partition partFuture) @ ''/.system/'')
              (Uuid (Partition partFuture)) (IdentifiedAs partFuture) w6 = (None, wg)
        \<and> NewChroot h (MountPoint (Partition partFuture) @ ''/.system/'')
              (Uuid (Partition partFuture)) (Device (Partition partFuture)) wg = (Inr chroot, wn) \<longrightarrow>
        queue (snd (Upgrade h s w)) =
          [\<lparr>Name = ''umountFuture'', Values = [VPartition partFuture]\<rparr>,
           \<lparr>Name = ''closeChroot'', Values = [VChroot chroot]\<rparr>])"
  using Upgrade_undrained_core [of h s w] Upgrade_after_NewChroot [of h s w]
  by (intro conjI allI impI) (blast+)

lemma host_ok_simps:
  "result host_ok t c = None"
  "registry_digest host_ok t = ''sha:B''"
  "GetFuture host_ok t = Inr example_future"
  "GetBoot host_ok t = Inr example_boot"
  "pulled host_ok t name = \<lparr>ImageDigest = ''sha:B''\<rparr>"
  "GetFinalCmd host_ok t = []"
  "path_exists host_ok t name = True"
  "fd_of host_ok t name = 3"
  "uuid_New host_ok t = ''0b5e''"
  "Cnf host_ok = \<lparr>CnfRegistry = ''ghcr.io'', CnfName = ''vanilla-os/desktop'', CnfTag = ''main''\<rparr>"
  by (simp_all add: host_ok_def)

lemma host_failing_simps:
  "result (host_failing c err) t c' = (if c' = c then Some err else None)"
  "registry_digest (host_failing c err) = registry_digest host_ok"
  "GetFuture (host_failing c err) = GetFuture host_ok"
  "GetBoot (host_failing c err) = GetBoot host_ok"
  "pulled (host_failing c err) = pulled host_ok"
  "GetFinalCmd (host_failing c err) = GetFinalCmd host_ok"
  "path_exists (host_failing c err) = path_exists host_ok"
  "fd_of (host_failing c err) = fd_of host_ok"
  "uuid_New (host_failing c err) = uuid_New host_ok"
  "Cnf (host_failing c err) = Cnf host_ok"
  "getKernelVersion (host_failing c err) = getKernelVersion host_ok"
  by (simp_all add: host_failing_def getKernelVersion_def fun_eq_iff)

lemmas example_values =
  host_ok_simps host_failing_simps example_future_def example_boot_def example_chroot_def
  example_system_def world0_def

lemmas upgrade_defs =
  Upgrade_def Upgrade_S1_def Upgrade_S2_def Upgrade_S3_def Upgrade_S4_def Upgrade_S5_def
  Upgrade_S6_def Upgrade_S7_def Upgrade_S8_def Upgrade_S9_def Upgrade_S10_def
  CheckUpdate_def HasUpdate_def Partition_Mount_def NewABImage_def NewContainerFile_def
  AtomicSwap_cases generateGrubRecipe_def NewChroot_def Execute_eq ExecuteCmds_def SyncEtc_def
  etcFiles_def ReservedMounts_def RENAME_EXCHANGE_def perform_def ResetQueue_def
  AddToCleanUpQueue_def Let_def mounted_future_def

lemma example_Upgrade_S1:
  "Upgrade_S1 host_ok (ResetQueue world0) =
     (Inr (mounted_future, example_boot),
      \<lparr>queue = [\<lparr>Name = ''umountFuture'', Values = [VPartition mounted_future]\<rparr>],
       trace = [PartitionMount (Partition example_future) ''/part-future/'']\<rparr>)"
  by (simp add: upgrade_defs example_values)

lemma example_Upgrade:
  "Upgrade host_ok example_system world0 =
     (None,
      \<lparr>queue = [\<lparr>Name = ''umountFuture'', Values = [VPartition mounted_future]\<rparr>,
                \<lparr>Name = ''closeChroot'', Values = [VChroot example_chroot]\<rparr>],
       trace =
         [PartitionMount (Partition example_future) ''/part-future/'',
          PodmanPull ''ghcr.io/vanilla-os/desktop:main'',
          PodmanGenerateRootfs ''ghcr.io/vanilla-os/desktop:main''
            \<lparr>BaseImage = ''ghcr.io/vanilla-os/desktop:main'',
             Labels = [(''maintainer'', [CHR 0x27] @ ''Generated by ABRoot'' @ [CHR 0x27])],
             Args = [], Content = ''RUN true''\<rparr>
            ''/part-future/'' ''/part-future//.system.new/'',
          ABImageWriteTo \<lparr>Digest = ''sha:B'', Image = ''ghcr.io/vanilla-os/desktop:main''\<rparr> ''/part-future/'' ''new'',
          OsOpen ''/part-future//.system/'',
          OsOpen ''/part-future//.system.new/'',
          Renameat2 3 ''/part-future//.system/'' 3 ''/part-future//.system.new/'' 2,
          OsOpen ''/part-future//abimage.abr'',
          OsOpen ''/part-future//abimage-new.abr'',
          Renameat2 3 ''/part-future//abimage.abr'' 3 ''/part-future//abimage-new.abr'' 2,
          OsMkdirAll ''/part-future/.system/etc/grub.d'' 493,
          WriteFile ''/part-future/.system/etc/grub.d/10_abroot''
            (Sprintf template [''future'', ''abc-123'', ''vmlinuz-6.9.0-1'', ''abc-123'', ''vmlinuz-6.9.0-1'']) 420,
          ExecRun ''chroot'' [''/part-future/.system/'', ''/bin/sh'', ''-c'', ''mount --bind / /''],
          ExecRun ''mount'' [''--bind'', ''/dev'', ''/part-future/.system//dev''],
          ExecRun ''mount'' [''--bind'', ''/dev/pts'', ''/part-future/.system//dev/pts''],
          ExecRun ''mount'' [''--bind'', ''/proc'', ''/part-future/.system//proc''],
          ExecRun ''mount'' [''--bind'', ''/run'', ''/part-future/.system//run''],
          ExecRun ''mount'' [''--bind'', ''/sys'', ''/part-future/.system//sys''],
          ExecRun ''chroot'' [''/part-future/.system/'', ''/bin/sh'', ''-c'', ''grub-mkconfig -o /boot/grub/grub.cfg''],
          ExecRun ''chroot'' [''/part-future/.system/'', ''/bin/sh'', ''-c'', ''exit''],
          MergeDiff ''/var/lib/abroot/etc/passwd'' ''/part-future//.system/etc//passwd'',
          MergeDiff ''/var/lib/abroot/etc/group'' ''/part-future//.system/etc//group'',
          MergeDiff ''/var/lib/abroot/etc/shells'' ''/part-future//.system/etc//shells'',
          MergeDiff ''/var/lib/abroot/etc/shadow'' ''/part-future//.system/etc//shadow'',
          MergeDiff ''/var/lib/abroot/etc/subuid'' ''/part-future//.system/etc//subuid'',
          MergeDiff ''/var/lib/abroot/etc/subgid'' ''/part-future//.system/etc//subgid'',
          OsMkdir ''/tmp/0b5e'' 493,
          PartitionMount example_boot ''/tmp/0b5e'',
          OsOpen ''/tmp/0b5e/grub.cfg'',
          OsOpen ''/tmp/0b5e/grub.cfg.future'',
          Renameat2 3 ''/tmp/0b5e/grub.cfg'' 3 ''/tmp/0b5e/grub.cfg.future'' 2]\<rparr>)"
  by (simp add: upgrade_defs example_values example_getKernelVersion example_paths)

text \<open>
  On the example machine stage 1 mounts the future partition, the run
  succeeds, and both entries are queued when \<open>Upgrade\<close> returns.
\<close>

theorem Upgrade_returns_undrained_witness:
  "CheckUpdate host_ok example_system (ResetQueue world0)
   \<and> fst (Upgrade_S1 host_ok (ResetQueue world0)) = Inr (mounted_future, example_boot)
   \<and> fst (Upgrade host_ok example_system world0) = None
   \<and> queue (snd (Upgrade host_ok example_system world0)) =
        [\<lparr>Name = ''umountFuture'', Values = [VPartition mounted_future]\<rparr>,
         \<lparr>Name = ''closeChroot'', Values = [VChroot example_chroot]\<rparr>]"
  using Upgrade_returns_undrained [of host_ok example_system world0]
  unfolding example_Upgrade example_Upgrade_S1
  by (simp add: CheckUpdate_def HasUpdate_def example_values)

text \<open>
  Against C1 as the spec words it: when the pull of stage 2 fails,
  \<open>Upgrade\<close> returns with the future partition mounted and its unmount
  still queued, never issued; and after a successful run the queue holds both
  entries and the trace holds no release.
\<close>

theorem Upgrade_drains_counterexample:
  "Upgrade (host_failing (PodmanPull ''ghcr.io/vanilla-os/desktop:main'') (HostError ''pull failed''))
       example_system world0
     = (Some (HostError ''pull failed''),
        \<lparr>queue = [\<lparr>Name = ''umountFuture'', Values = [VPartition mounted_future]\<rparr>],
         trace = [PartitionMount (Partition example_future) ''/part-future/'',
                  PodmanPull ''ghcr.io/vanilla-os/desktop:main'']\<rparr>)
   \<and> queue (snd (Upgrade host_ok example_system world0)) =
        [\<lparr>Name = ''umountFuture'', Values = [VPartition mounted_future]\<rparr>,
         \<lparr>Name = ''closeChroot'', Values = [VChroot example_chroot]\<rparr>]
   \<and> filter is_release (trace (snd (Upgrade host_ok example_system world0))) = []"
  unfolding example_Upgrade
  by (simp add: upgrade_defs example_values)

section \<open>Stage 3: the recipe of the composed image\<close>

lemma Upgrade_after_S2:
  assumes "CheckUpdate h s (ResetQueue w)"
    and "Upgrade_S1 h (ResetQueue w) = (Inr (partFuture, partBoot), w1)"
    and "Upgrade_S2 h w1 = (Inr (fullImageName, podmanImage), w2)"
  shows "\<exists>later. trace (snd (Upgrade h s w)) =
     trace w2 @ PodmanGenerateRootfs fullImageName (Upgrade_S3 h fullImageName w2)
                  (MountPoint (Partition partFuture))
                  (MountPoint (Partition partFuture) @ ''/.system.new/'') # later"
proof -
  obtain r4 w4 where s4: "Upgrade_S4 h fullImageName (Upgrade_S3 h fullImageName w2) partFuture w2 = (r4, w4)"
    by (cases "Upgrade_S4 h fullImageName (Upgrade_S3 h fullImageName w2) partFuture w2")
  then have t4: "trace w4 = trace w2 @ [PodmanGenerateRootfs fullImageName (Upgrade_S3 h fullImageName w2)
                  (MountPoint (Partition partFuture))
                  (MountPoint (Partition partFuture) @ ''/.system.new/'')]"
    by (auto simp add: Upgrade_S4_def perform_def)
  show ?thesis
  proof (cases r4)
    case (Some e)
    have "Upgrade h s w = (Some e, w4)"
      unfolding Upgrade_def Let_def
      by (simp only: assms s4 Some if_True if_False not_True_eq_False not_False_eq_True
            prod.case sum.case option.case)
    with t4 show ?thesis by simp
  next
    case None
    have "keeps_or_opens w4 (Upgrade h s w)"
      unfolding Upgrade_def Let_def
      apply (simp only: assms s4 None if_True if_False not_True_eq_False not_False_eq_True
            prod.case sum.case option.case)
      apply (rule keeps_or_opens_seq, erule S5_frame)
      apply (rule keeps_or_opens_seq, erule S6_frame)
      apply (rule keeps_or_opens_S7, erule S7_frame)
      apply (rule keeps_seq, erule S8_frame)
      apply (rule keeps_seq_sum, erule S9_frame)
      apply (rule keeps_seq, erule S10_frame)
      apply (simp add: keeps_def)
      done
    then obtain cs where "trace (snd (Upgrade h s w)) = trace w4 @ cs"
      by (auto simp add: keeps_or_opens_def quiet_def)
    with t4 show ?thesis by simp
  qed
qed

text \<open>
  Claim C9.  The container file that stage 3 builds has the pulled image as
  its base, the maintainer label, no build arguments, and the body
  \<open>RUN <finalCmd>\<close>, where \<open><finalCmd>\<close> is the package manager's final
  command, or \<open>true\<close> when that command is the empty string.  It is this
  container file that \<open>Upgrade\<close> hands to the image backend in stage 4.
\<close>

theorem Upgrade_S3_recipe_body:
  "Upgrade_S3 h fullImageName w2 =
     \<lparr>BaseImage = fullImageName,
      Labels = [(''maintainer'', [CHR 0x27] @ ''Generated by ABRoot'' @ [CHR 0x27])],
      Args = [],
      Content = ''RUN '' @ (if GetFinalCmd h (trace w2) = '''' then ''true'' else GetFinalCmd h (trace w2))\<rparr>
   \<and> (CheckUpdate h s (ResetQueue w)
        \<and> Upgrade_S1 h (ResetQueue w) = (Inr (partFuture, partBoot), w1)
        \<and> Upgrade_S2 h w1 = (Inr (fullImageName, podmanImage), w2) \<longrightarrow>
       (\<exists>later. trace (snd (Upgrade h s w)) =
          trace w2 @ PodmanGenerateRootfs fullImageName (Upgrade_S3 h fullImageName w2)
                       (MountPoint (Partition partFuture))
                       (MountPoint (Partition partFuture) @ ''/.system.new/'') # later))"
proof (intro conjI impI)
  show "Upgrade_S3 h fullImageName w2 =
     \<lparr>BaseImage = fullImageName,
      Labels = [(''maintainer'', [CHR 0x27] @ ''Generated by ABRoot'' @ [CHR 0x27])],
      Args = [],
      Content = ''RUN '' @ (if GetFinalCmd h (trace w2) = '''' then ''true'' else GetFinalCmd h (trace w2))\<rparr>"
    by (simp add: Upgrade_S3_def NewContainerFile_def Let_def)
next
  assume "CheckUpdate h s (ResetQueue w)
        \<and> Upgrade_S1 h (ResetQueue w) = (Inr (partFuture, partBoot), w1)
        \<and> Upgrade_S2 h w1 = (Inr (fullImageName, podmanImage), w2)"
  then show "\<exists>later. trace (snd (Upgrade h s w)) =
          trace w2 @ PodmanGenerateRootfs fullImageName (Upgrade_S3 h fullImageName w2)
                       (MountPoint (Partition partFuture))
                       (MountPoint (Partition partFuture) @ ''/.system.new/'') # later"
    using Upgrade_after_S2 by blast
qed

lemma example_Upgrade_S2:
  "Upgrade_S2 host_ok
      \<lparr>queue = [\<lparr>Name = ''umountFuture'', Values = [VPartition mounted_future]\<rparr>],
       trace = [PartitionMount (Partition example_future) ''/part-future/'']\<rparr>
    = (Inr (''ghcr.io/vanilla-os/desktop:main'', \<lparr>ImageDigest = ''sha:B''\<rparr>),
       \<lparr>queue = [\<lparr>Name = ''umountFuture'', Values = [VPartition mounted_future]\<rparr>],
        trace = [PartitionMount (Partition example_future) ''/part-future/'',
                 PodmanPull ''ghcr.io/vanilla-os/desktop:main'']\<rparr>)"
  by (simp add: upgrade_defs example_values)

text \<open>
  With no package operations the example machine builds \<open>RUN true\<close>; with a
  final command, \<open>RUN\<close> and that command.
\<close>

theorem Upgrade_S3_recipe_body_witness:
  "Content (Upgrade_S3 host_ok ''ghcr.io/vanilla-os/desktop:main'' world0) = ''RUN true''
   \<and> Content (Upgrade_S3 (host_ok\<lparr>GetFinalCmd := (\<lambda>t. ''apt-get install -y vim'')\<rparr>)
         ''ghcr.io/vanilla-os/desktop:main'' world0) = ''RUN apt-get install -y vim''
   \<and> CheckUpdate host_ok example_system (ResetQueue world0)
   \<and> take 3 (trace (snd (Upgrade host_ok example_system world0))) =
        [PartitionMount (Partition example_future) ''/part-future/'',
         PodmanPull ''ghcr.io/vanilla-os/desktop:main'',
         PodmanGenerateRootfs ''ghcr.io/vanilla-os/desktop:main''
           \<lparr>BaseImage = ''ghcr.io/vanilla-os/desktop:main'',
            Labels = [(''maintainer'', [CHR 0x27] @ ''Generated by ABRoot'' @ [CHR 0x27])],
            Args = [], Content = ''RUN true''\<rparr>
           ''/part-future/'' ''/part-future//.system.new/'']"
  using Upgrade_S3_recipe_body [of host_ok "''ghcr.io/vanilla-os/desktop:main''" world0]
        Upgrade_S3_recipe_body [of "host_ok\<lparr>GetFinalCmd := (\<lambda>t. ''apt-get install -y vim'')\<rparr>"
          "''ghcr.io/vanilla-os/desktop:main''" world0]
        Upgrade_S3_recipe_body [of host_ok "''ghcr.io/vanilla-os/desktop:main''"
          "\<lparr>queue = [\<lparr>Name = ''umountFuture'', Values = [VPartition mounted_future]\<rparr>],
            trace = [PartitionMount (Partition example_future) ''/part-future/'',
                     PodmanPull ''ghcr.io/vanilla-os/desktop:main'']\<rparr>"
          example_system world0 mounted_future example_boot
          "\<lparr>queue = [\<lparr>Name = ''umountFuture'', Values = [VPartition mounted_future]\<rparr>],
            trace = [PartitionMount (Partition example_future) ''/part-future/'']\<rparr>"
          "\<lparr>ImageDigest = ''sha:B''\<rparr>"]
  unfolding example_Upgrade example_Upgrade_S1 example_Upgrade_S2
  by (simp add: Upgrade_S3_def NewContainerFile_def CheckUpdate_def HasUpdate_def example_values)

section \<open>Stage 6: the two exchanges\<close>

lemma AtomicSwap_None:
  assumes "AtomicSwap h a b w = (None, w')"
  shows "\<exists>fa fb. trace w' = trace w @ [OsOpen a, OsOpen b, Renameat2 fa a fb b RENAME_EXCHANGE]
           \<and> result h (trace w @ [OsOpen a, OsOpen b]) (Renameat2 fa a fb b RENAME_EXCHANGE) = None"
  using assms by (auto simp add: AtomicSwap_cases split: if_splits option.splits)

lemma AtomicSwap_calls:
  assumes "AtomicSwap h a b w = (r, w')"
  shows "\<exists>n fa fb. trace w' = trace w @ take n [OsOpen a, OsOpen b, Renameat2 fa a fb b RENAME_EXCHANGE]"
proof (cases "path_exists h (trace w) a \<and> result h (trace w) (OsOpen a) = None")
  case False
  with assms have "trace w' = trace w @ take 1 [OsOpen a, OsOpen b, Renameat2 0 a 0 b RENAME_EXCHANGE]"
    by (auto simp add: AtomicSwap_cases split: if_splits option.splits)
  then show ?thesis by blast
next
  case a: True
  show ?thesis
  proof (cases "path_exists h (trace w @ [OsOpen a]) b \<and> result h (trace w @ [OsOpen a]) (OsOpen b) = None")
    case False
    with a assms have "trace w' = trace w @ take 2 [OsOpen a, OsOpen b, Renameat2 0 a 0 b RENAME_EXCHANGE]"
      by (auto simp add: AtomicSwap_cases split: if_splits option.splits)
    then show ?thesis by blast
  next
    case True
    with a assms have "trace w' = trace w @ take 3 [OsOpen a, OsOpen b,
        Renameat2 (fd_of h (trace w) a) a (fd_of h (trace w @ [OsOpen a]) b) b RENAME_EXCHANGE]"
      by (auto simp add: AtomicSwap_cases)
    then show ?thesis by blast
  qed
qed

text \<open>
  Claim C2, as the code has it.  Take a run in which stages 0 to 5
  succeed, the exchange of \<open>.system/\<close> and \<open>.system.new/\<close> succeeds and the
  exchange of \<open>abimage.abr\<close> and \<open>abimage-new.abr\<close> then fails with \<open>err\<close>.
  \<open>Upgrade\<close> returns \<open>err\<close> itself, the value that \<open>AtomicSwap\<close> handed
  up: the code wraps it in no kind of its own.  The exchange of the root
  trees was issued first and succeeded, and the calls made after it are
  only those of the second \<open>AtomicSwap\<close>: nothing exchanges \<open>.system/\<close>
  back.
\<close>

theorem Upgrade_S6_second_exchange_fails:
  assumes "CheckUpdate h s (ResetQueue w)"
    and "Upgrade_S1 h (ResetQueue w) = (Inr (partFuture, partBoot), w1)"
    and "Upgrade_S2 h w1 = (Inr (fullImageName, podmanImage), w2)"
    and "Upgrade_S4 h fullImageName (Upgrade_S3 h fullImageName w2) partFuture w2 = (None, w4)"
    and "Upgrade_S5 h fullImageName podmanImage partFuture w4 = (None, w5)"
    and "AtomicSwap h (MountPoint (Partition partFuture) @ ''/.system/'')
           (MountPoint (Partition partFuture) @ ''/.system.new/'') w5 = (None, wa)"
    and "AtomicSwap h (MountPoint (Partition partFuture) @ ''/abimage.abr'')
           (MountPoint (Partition partFuture) @ ''/abimage-new.abr'') wa = (Some err, wb)"
  shows "Upgrade h s w = (Some err, wb)
     \<and> (\<exists>fa fb.
           trace wa = trace w5 @
             [OsOpen (MountPoint (Partition partFuture) @ ''/.system/''),
              OsOpen (MountPoint (Partition partFuture) @ ''/.system.new/''),
              Renameat2 fa (MountPoint (Partition partFuture) @ ''/.system/'')
                        fb (MountPoint (Partition partFuture) @ ''/.system.new/'') RENAME_EXCHANGE]
         \<and> result h (trace w5 @
             [OsOpen (MountPoint (Partition partFuture) @ ''/.system/''),
              OsOpen (MountPoint (Partition partFuture) @ ''/.system.new/'')])
             (Renameat2 fa (MountPoint (Partition partFuture) @ ''/.system/'')
                        fb (MountPoint (Partition partFuture) @ ''/.system.new/'') RENAME_EXCHANGE) = None)
     \<and> (\<exists>n fa fb.
           trace wb = trace wa @ take n
             [OsOpen (MountPoint (Partition partFuture) @ ''/abimage.abr''),
              OsOpen (MountPoint (Partition partFuture) @ ''/abimage-new.abr''),
              Renameat2 fa (MountPoint (Partition partFuture) @ ''/abimage.abr'')
                        fb (MountPoint (Partition partFuture) @ ''/abimage-new.abr'') RENAME_EXCHANGE])"
proof (intro conjI)
  have s6: "Upgrade_S6 h partFuture w5 = (Some err, wb)"
    using assms(6,7) by (simp add: Upgrade_S6_def Let_def)
  show "Upgrade h s w = (Some err, wb)"
    unfolding Upgrade_def Let_def
    by (simp only: assms(1-5) s6 if_True if_False not_True_eq_False not_False_eq_True
          prod.case sum.case option.case)
  from AtomicSwap_None [OF assms(6)]
  show "\<exists>fa fb.
           trace wa = trace w5 @
             [OsOpen (MountPoint (Partition partFuture) @ ''/.system/''),
              OsOpen (MountPoint (Partition partFuture) @ ''/.system.new/''),
              Renameat2 fa (MountPoint (Partition partFuture) @ ''/.system/'')
                        fb (MountPoint (Partition partFuture) @ ''/.system.new/'') RENAME_EXCHANGE]
         \<and> result h (trace w5 @
             [OsOpen (MountPoint (Partition partFuture) @ ''/.system/''),
              OsOpen (MountPoint (Partition partFuture) @ ''/.system.new/'')])
             (Renameat2 fa (MountPoint (Partition partFuture) @ ''/.system/'')
                        fb (MountPoint (Partition partFuture) @ ''/.system.new/'') RENAME_EXCHANGE) = None" .
  from AtomicSwap_calls [OF assms(7)]
  show "\<exists>n fa fb.
           trace wb = trace wa @ take n
             [OsOpen (MountPoint (Partition partFuture) @ ''/abimage.abr''),
              OsOpen (MountPoint (Partition partFuture) @ ''/abimage-new.abr''),
              Renameat2 fa (MountPoint (Partition partFuture) @ ''/abimage.abr'')
                        fb (MountPoint (Partition partFuture) @ ''/abimage-new.abr'') RENAME_EXCHANGE]" .
qed

lemmas example_at_defs = example_at_def example_trace_def

lemma example_second_exchange_fails:
  "CheckUpdate refusing_second_exchange example_system (ResetQueue world0)"
  "Upgrade_S1 refusing_second_exchange (ResetQueue world0) = (Inr (mounted_future, example_boot), example_at 1)"
  "Upgrade_S2 refusing_second_exchange (example_at 1)
     = (Inr (''ghcr.io/vanilla-os/desktop:main'', \<lparr>ImageDigest = ''sha:B''\<rparr>), example_at 2)"
  "Upgrade_S4 refusing_second_exchange ''ghcr.io/vanilla-os/desktop:main''
      (Upgrade_S3 refusing_second_exchange ''ghcr.io/vanilla-os/desktop:main'' (example_at 2))
      mounted_future (example_at 2) = (None, example_at 3)"
  "Upgrade_S5 refusing_second_exchange ''ghcr.io/vanilla-os/desktop:main'' \<lparr>ImageDigest = ''sha:B''\<rparr>
      mounted_future (example_at 3) = (None, example_at 4)"
  "AtomicSwap refusing_second_exchange (MountPoint (Partition mounted_future) @ ''/.system/'')
      (MountPoint (Partition mounted_future) @ ''/.system.new/'') (example_at 4) = (None, example_at 7)"
  "AtomicSwap refusing_second_exchange (MountPoint (Partition mounted_future) @ ''/abimage.abr'')
      (MountPoint (Partition mounted_future) @ ''/abimage-new.abr'') (example_at 7)
     = (Some (HostError ''invalid argument''), example_at 10)"
  by (simp_all add: refusing_second_exchange_def upgrade_defs example_values example_at_defs)

text \<open>
  On a machine that refuses only the exchange of the descriptors, \<open>Upgrade\<close>
  returns the error of that \<open>renameat2\<close> after the ten calls up to it.
\<close>

theorem Upgrade_S6_second_exchange_fails_witness:
  "CheckUpdate refusing_second_exchange example_system (ResetQueue world0)
   \<and> fst (AtomicSwap refusing_second_exchange ''/part-future//.system/'' ''/part-future//.system.new/'' (example_at 4)) = None
   \<and> fst (AtomicSwap refusing_second_exchange ''/part-future//abimage.abr'' ''/part-future//abimage-new.abr'' (example_at 7))
       = Some (HostError ''invalid argument'')
   \<and> Upgrade refusing_second_exchange example_system world0 = (Some (HostError ''invalid argument''), example_at 10)"
  using Upgrade_S6_second_exchange_fails [OF example_second_exchange_fails] example_second_exchange_fails(1,6,7)
  by (simp add: mounted_future_def)

text \<open>
  Against C2 as the spec words it: the error returned when the second
  exchange fails after the first is the bare error of \<open>renameat2\<close>, the very
  value that \<open>Upgrade\<close> returns when the first exchange fails; nothing in it
  names a descriptor mismatch.  The two runs differ only in their traces.
\<close>

theorem Upgrade_S6_error_kind_counterexample:
  "fst (Upgrade refusing_second_exchange example_system world0) = Some (HostError ''invalid argument'')
   \<and> fst (Upgrade refusing_first_exchange example_system world0) = Some (HostError ''invalid argument'')
   \<and> trace (snd (Upgrade refusing_second_exchange example_system world0)) = example_trace
   \<and> trace (snd (Upgrade refusing_first_exchange example_system world0)) = take 7 example_trace"
  by (simp add: refusing_second_exchange_def refusing_first_exchange_def upgrade_defs example_values
        example_at_defs)

end
